theory Spec2Isabelle
  imports Complex_Main "HOL-Library.Word"
begin

unbundle bit_operations_syntax

section \<open>The log sink (src/lib/store-logger.ts)\<close>

text \<open>
  A \<^verbatim>\<open>StreamingLog\<close> is \<^verbatim>\<open>{date, type, count?, message}\<close>. The store compares
  messages with \<^verbatim>\<open>===\<close>: strings by value, objects by identity. The record is
  polymorphic in the message, and equality on \<open>'m\<close> stands for \<^verbatim>\<open>===\<close>.
\<close>

record 'm StreamingLog =
  date :: nat
  log_type :: string
  count :: "int option"
  message :: 'm

record 'm StoreLoggerState =
  maxLogs :: int
  logs :: "'m StreamingLog list"

text \<open>
  \<^verbatim>\<open>Array.prototype.slice(start)\<close> with one argument: a negative start counts from
  the end and is clamped at 0, a non-negative one is clamped at the length. The start
  \<^verbatim>\<open>-0\<close> is 0.
\<close>

definition js_slice :: "int \<Rightarrow> 'a list \<Rightarrow> 'a list" where
  "js_slice start xs =
     (let len = int (length xs);
          k = (if start < 0 then max (len + start) 0 else min start len)
      in drop (nat k) xs)"

text \<open>\<^verbatim>\<open>(prevLog.count || 0) + 1\<close>: an absent count, like 0, is falsy.\<close>

definition bump_count :: "int option \<Rightarrow> int" where
  "bump_count c = (case c of None \<Rightarrow> 0 | Some n \<Rightarrow> n) + 1"

definition isLogDuplicate :: "'m StreamingLog list \<Rightarrow> 'm StreamingLog \<Rightarrow> bool" where
  "isLogDuplicate ls streamingLog =
     (case ls of
        [] \<Rightarrow> False
      | _ \<Rightarrow> log_type (last ls) = log_type streamingLog
             \<and> message (last ls) = message streamingLog)"

definition log :: "'m StoreLoggerState \<Rightarrow> 'm StreamingLog \<Rightarrow> 'm StoreLoggerState" where
  "log state streamingLog =
     (if isLogDuplicate (logs state) streamingLog
      then state\<lparr>logs :=
             (logs state)[length (logs state) - 1 :=
                (last (logs state))\<lparr>count := Some (bump_count (count (last (logs state))))\<rparr>]\<rparr>
      else state\<lparr>logs := js_slice (- (maxLogs state - 1)) (logs state) @ [streamingLog]\<rparr>)"

definition clearLogs :: "'m StoreLoggerState \<Rightarrow> 'm StoreLoggerState" where
  "clearLogs state = state\<lparr>logs := []\<rparr>"

definition setMaxLogs :: "'m StoreLoggerState \<Rightarrow> int \<Rightarrow> 'm StoreLoggerState" where
  "setMaxLogs state n = state\<lparr>maxLogs := n\<rparr>"

definition initial_store :: "'m StoreLoggerState" where
  "initial_store = \<lparr>maxLogs = 500, logs = []\<rparr>"

definition entry :: "string \<Rightarrow> 'm \<Rightarrow> 'm StreamingLog" where
  "entry t m = \<lparr>date = 0, log_type = t, count = None, message = m\<rparr>"

section \<open>The capture worklet (AudioProcessingWorklet)\<close>

text \<open>
  Samples are the values of a \<^verbatim>\<open>Float32Array\<close>. Every finite one is a rational
  number, and its product with 32767 is exact in double precision (24 + 15
  significant bits), so the arithmetic below, on reals, is the program's. \<^verbatim>\<open>Math.round\<close> rounds to the nearest
  integer and, of two equally near ones, takes the one towards plus infinity.
  Storing into an \<^verbatim>\<open>Int16Array\<close> keeps the low 16 bits.
\<close>

definition BUFFER_SIZE :: nat where
  "BUFFER_SIZE = 2048"

definition INT16_MAX :: real where
  "INT16_MAX = 32767"

definition Math_round :: "real \<Rightarrow> int" where
  "Math_round y = \<lfloor>y + 1 / 2\<rfloor>"

definition to_int16 :: "real \<Rightarrow> 16 word" where
  "to_int16 x = word_of_int (Math_round (x * INT16_MAX))"

record worklet =
  buffer :: "16 word list"
  bufferWriteIndex :: nat
  isReceivingAudio :: bool

definition new_worklet :: worklet where
  "new_worklet = \<lparr>buffer = replicate BUFFER_SIZE 0, bufferWriteIndex = 0, isReceivingAudio = False\<rparr>"

text \<open>
  The second component is the list of chunks posted to the main thread, oldest first;
  a chunk is \<^verbatim>\<open>buffer.slice(0, bufferWriteIndex)\<close>.
\<close>

definition sendAndClearBuffer :: "worklet \<Rightarrow> worklet \<times> 16 word list list" where
  "sendAndClearBuffer w =
     (if bufferWriteIndex w > 0
      then (w\<lparr>bufferWriteIndex := 0\<rparr>, [take (bufferWriteIndex w) (buffer w)])
      else (w, []))"

fun processChunk :: "worklet \<Rightarrow> real list \<Rightarrow> worklet \<times> 16 word list list" where
  "processChunk w [] = (w, [])"
| "processChunk w (x # xs) =
     (let w1 = w\<lparr>buffer := (buffer w)[bufferWriteIndex w := to_int16 x],
                 bufferWriteIndex := bufferWriteIndex w + 1\<rparr>;
          (w2, out) = (if bufferWriteIndex w1 \<ge> length (buffer w1)
                       then sendAndClearBuffer w1 else (w1, []));
          (w3, out') = processChunk w2 xs
      in (w3, out @ out'))"

text \<open>
  \<^verbatim>\<open>process(inputs)\<close>: \<open>None\<close> is a block without input channels
  (\<^verbatim>\<open>input?.length\<close> falsy), \<open>Some xs\<close> is channel 0 of the block.
\<close>

definition process :: "worklet \<Rightarrow> real list option \<Rightarrow> worklet \<times> 16 word list list" where
  "process w input =
     (case input of
        Some xs \<Rightarrow> processChunk (w\<lparr>isReceivingAudio := True\<rparr>) xs
      | None \<Rightarrow>
          if isReceivingAudio w
          then (if bufferWriteIndex w > 0
                then sendAndClearBuffer (w\<lparr>isReceivingAudio := False\<rparr>)
                else (w\<lparr>isReceivingAudio := False\<rparr>, []))
          else (w, []))"

text \<open>The rounding the specification names: half away from zero.\<close>

definition spec_round_half_away_from_zero :: "real \<Rightarrow> int" where
  "spec_round_half_away_from_zero y = (if y < 0 then - \<lfloor>- y + 1 / 2\<rfloor> else \<lfloor>y + 1 / 2\<rfloor>)"

section \<open>The playback streamer (AudioStreamer)\<close>

datatype error =
    Error string
  | TypeError
  | InvalidCharacterError
  | NotSupportedError

record AudioBuffer =
  numberOfChannels :: nat
  sampleRate :: nat
  channel :: "real list"

text \<open>
  The streamer keeps the source it started last. \<open>stopped\<close> lists the buffers of the
  sources on which \<^verbatim>\<open>stop()\<close> was called, and \<open>started\<close> those that were started.
\<close>

record AudioStreamer =
  pcmSource :: "AudioBuffer option"
  stopped :: "AudioBuffer list"
  started :: "AudioBuffer list"

text \<open>\<^verbatim>\<open>(data[i] << 8) | data[i + 1]\<close> on two elements of a \<^verbatim>\<open>Uint8Array\<close>.\<close>

definition sample_of :: "8 word \<Rightarrow> 8 word \<Rightarrow> int" where
  "sample_of hi lo = (push_bit 8 (uint hi)) OR (uint lo)"

text \<open>
  The loop \<^verbatim>\<open>for (i = 0; i < data.length; i += 2)\<close>. With an odd length the last
  round reads \<^verbatim>\<open>data[i + 1]\<close> out of range and writes \<^verbatim>\<open>channel[i / 2]\<close> out of
  range; a typed array ignores that write.
\<close>

fun decode_samples :: "8 word list \<Rightarrow> real list" where
  "decode_samples (hi # lo # rest) = of_int (sample_of hi lo) / 32768 # decode_samples rest"
| "decode_samples [hi] = []"
| "decode_samples [] = []"

text \<open>
  \<^verbatim>\<open>createBuffer(1, data.length / 2, 48000)\<close>: the length is converted to an
  unsigned integer by truncation, and a buffer of length 0 is refused with
  \<^verbatim>\<open>NotSupportedError\<close>.
\<close>

definition addPCM16 :: "AudioStreamer \<Rightarrow> 8 word list \<Rightarrow> error + AudioStreamer" where
  "addPCM16 s data =
     (if length data div 2 = 0 then Inl NotSupportedError
      else
        let buf = \<lparr>numberOfChannels = 1, sampleRate = 48000, channel = decode_samples data\<rparr>;
            s1 = (case pcmSource s of
                    Some old \<Rightarrow> s\<lparr>stopped := stopped s @ [old]\<rparr>
                  | None \<Rightarrow> s)
        in Inr (s1\<lparr>pcmSource := Some buf, started := started s1 @ [buf]\<rparr>))"

definition stop :: "AudioStreamer \<Rightarrow> AudioStreamer" where
  "stop s =
     (case pcmSource s of
        Some old \<Rightarrow> s\<lparr>stopped := stopped s @ [old], pcmSource := None\<rparr>
      | None \<Rightarrow> s)"

definition new_streamer :: AudioStreamer where
  "new_streamer = \<lparr>pcmSource = None, stopped = [], started = []\<rparr>"

section \<open>JSON values and the type guards (src/multimodal-live-types.ts)\<close>

text \<open>
  What \<^verbatim>\<open>JSON.parse\<close> returns. A number is represented by the text \<^verbatim>\<open>ToString\<close>
  gives for it (the client looks at a number only through \<^verbatim>\<open>typeof\<close>, truthiness
  and \<^verbatim>\<open>ToString\<close>); an object by its own properties in order, each key once.
  \<open>None\<close> of type \<open>json option\<close> is \<^verbatim>\<open>undefined\<close>.
\<close>

datatype json =
    JNull
  | JBool bool
  | JNum string
  | JStr string
  | JArr "json list"
  | JObj "(string \<times> json) list"

fun typeof :: "json \<Rightarrow> string" where
  "typeof JNull = ''object''"
| "typeof (JBool b) = ''boolean''"
| "typeof (JNum n) = ''number''"
| "typeof (JStr s) = ''string''"
| "typeof (JArr xs) = ''object''"
| "typeof (JObj kvs) = ''object''"

definition typeof_u :: "json option \<Rightarrow> string" where
  "typeof_u v = (case v of None \<Rightarrow> ''undefined'' | Some j \<Rightarrow> typeof j)"

text \<open>
  \<^verbatim>\<open>value[name]\<close> and \<^verbatim>\<open>name in value\<close> on a value that is not \<^verbatim>\<open>null\<close>. The names
  the client uses are own properties of no array, string, number or boolean and are
  not inherited from a prototype, so only an object has them.
\<close>

fun lookup :: "json \<Rightarrow> string \<Rightarrow> json option" where
  "lookup (JObj kvs) k = map_of kvs k"
| "lookup v k = None"

fun has_key :: "string \<Rightarrow> json \<Rightarrow> bool" where
  "has_key k (JObj kvs) = (k \<in> set (map fst kvs))"
| "has_key k v = False"

text \<open>Reading a property of \<^verbatim>\<open>null\<close> throws a \<^verbatim>\<open>TypeError\<close>.\<close>

fun member :: "json \<Rightarrow> string \<Rightarrow> error + json option" where
  "member JNull k = Inl TypeError"
| "member v k = Inr (lookup v k)"

definition prop' :: "json \<Rightarrow> string \<Rightarrow> string \<Rightarrow> bool" where
  "prop' v propName kind =
     (v \<noteq> JNull \<and> typeof v = ''object'' \<and> has_key propName v
      \<and> typeof_u (lookup v propName) = kind)"

definition isSetupCompleteMessage :: "json \<Rightarrow> bool" where
  "isSetupCompleteMessage v = prop' v ''setupComplete'' ''object''"

definition isServerContenteMessage :: "json \<Rightarrow> bool" where
  "isServerContenteMessage v = prop' v ''serverContent'' ''object''"

definition isToolCallMessage :: "json \<Rightarrow> bool" where
  "isToolCallMessage v = prop' v ''toolCall'' ''object''"

definition isToolCallCancellation :: "json option \<Rightarrow> bool" where
  "isToolCallCancellation v =
     (case v of
        None \<Rightarrow> False
      | Some j \<Rightarrow> j \<noteq> JNull \<and> typeof j = ''object''
                  \<and> (case lookup j ''ids'' of Some (JArr ids) \<Rightarrow> True | _ \<Rightarrow> False))"

definition isToolCallCancellationMessage :: "json \<Rightarrow> bool" where
  "isToolCallCancellationMessage v =
     (prop' v ''toolCallCancellation'' ''object''
      \<and> isToolCallCancellation (lookup v ''toolCallCancellation''))"

definition isModelTurn :: "json \<Rightarrow> bool" where
  "isModelTurn v = (v \<noteq> JNull \<and> typeof v = ''object'' \<and> has_key ''modelTurn'' v)"

definition isTurnComplete :: "json \<Rightarrow> bool" where
  "isTurnComplete v =
     (v \<noteq> JNull \<and> typeof v = ''object'' \<and> has_key ''turnComplete'' v
      \<and> typeof_u (lookup v ''turnComplete'') = ''boolean'')"

definition isInterrupted :: "json \<Rightarrow> bool" where
  "isInterrupted v = (v \<noteq> JNull \<and> typeof v = ''object'' \<and> has_key ''interrupted'' v)"

text \<open>Truthiness; the number zero prints as \<^verbatim>\<open>0\<close>.\<close>

fun truthy :: "json \<Rightarrow> bool" where
  "truthy JNull = False"
| "truthy (JBool b) = b"
| "truthy (JNum n) = (n \<noteq> ''0'')"
| "truthy (JStr s) = (s \<noteq> [])"
| "truthy (JArr xs) = True"
| "truthy (JObj kvs) = True"

text \<open>
  \<^verbatim>\<open>ToString\<close>, which \<^verbatim>\<open>atob\<close> applies to its argument. An array is joined with
  commas, \<^verbatim>\<open>null\<close> elements as the empty string. An object prints as
  \<^verbatim>\<open>[object Object]\<close> unless an own property hides \<^verbatim>\<open>toString\<close>: a parsed value is
  not callable, and the conversion ends in a \<^verbatim>\<open>TypeError\<close> (\<open>None\<close>).
\<close>

fun ToString :: "json \<Rightarrow> string option"
  and join_elements :: "json list \<Rightarrow> string option" where
  "ToString JNull = Some ''null''"
| "ToString (JBool b) = Some (if b then ''true'' else ''false'')"
| "ToString (JNum n) = Some n"
| "ToString (JStr s) = Some s"
| "ToString (JArr xs) = join_elements xs"
| "ToString (JObj kvs) =
     (if ''toString'' \<in> set (map fst kvs) then None else Some ''[object Object]'')"
| "join_elements [] = Some []"
| "join_elements (x # xs) =
     (case (if x = JNull then Some [] else ToString x) of
        None \<Rightarrow> None
      | Some s \<Rightarrow>
          (case xs of
             [] \<Rightarrow> Some s
           | _ \<Rightarrow> (case join_elements xs of None \<Rightarrow> None | Some r \<Rightarrow> Some (s @ '','' @ r))))"

section \<open>Strings and base64 (src/lib/utils.ts)\<close>

definition startsWith :: "string \<Rightarrow> string \<Rightarrow> bool" where
  "startsWith s p = (take (length p) s = p)"

fun includes_str :: "string \<Rightarrow> string \<Rightarrow> bool" where
  "includes_str [] p = (p = [])"
| "includes_str (c # cs) p = (startsWith (c # cs) p \<or> includes_str cs p)"

text \<open>\<^verbatim>\<open>indexOf\<close>: the first position, or \<open>-1\<close>.\<close>

fun indexOf :: "string \<Rightarrow> string \<Rightarrow> int" where
  "indexOf [] p = (if p = [] then 0 else - 1)"
| "indexOf (c # cs) p =
     (if startsWith (c # cs) p then 0
      else (let i = indexOf cs p in if i < 0 then - 1 else i + 1))"

text \<open>\<^verbatim>\<open>toLowerCase\<close> on the letters A to Z.\<close>

definition lower_char :: "char \<Rightarrow> char" where
  "lower_char c =
     (case map_of (zip ''ABCDEFGHIJKLMNOPQRSTUVWXYZ'' ''abcdefghijklmnopqrstuvwxyz'') c of
        Some l \<Rightarrow> l
      | None \<Rightarrow> c)"

definition toLowerCase :: "string \<Rightarrow> string" where
  "toLowerCase s = map lower_char s"

text \<open>A natural number in a template literal.\<close>

definition digit_char :: "nat \<Rightarrow> char" where
  "digit_char d = ''0123456789'' ! d"

function show_nat :: "nat \<Rightarrow> string" where
  "show_nat n = (if n < 10 then [digit_char n] else show_nat (n div 10) @ [digit_char (n mod 10)])"
  by pat_completeness auto
termination
  by (relation "measure id") auto

declare show_nat.simps [simp del]

text \<open>
  \<^verbatim>\<open>atob\<close>, the forgiving base64 decoder: ASCII whitespace is dropped; when the
  length is then a multiple of 4, one or two trailing \<^verbatim>\<open>=\<close> are dropped; a length
  of 1 modulo 4 or a character outside the alphabet is an
  \<^verbatim>\<open>InvalidCharacterError\<close> (\<open>None\<close>); the bits left over after the last whole
  byte are discarded.
\<close>

definition is_ascii_whitespace :: "char \<Rightarrow> bool" where
  "is_ascii_whitespace c = ((of_char c :: nat) \<in> {9, 10, 12, 13, 32})"

definition b64_value :: "char \<Rightarrow> nat option" where
  "b64_value c =
     (let n = (of_char c :: nat) in
      if 65 \<le> n \<and> n \<le> 90 then Some (n - 65)
      else if 97 \<le> n \<and> n \<le> 122 then Some (n - 71)
      else if 48 \<le> n \<and> n \<le> 57 then Some (n + 4)
      else if n = 43 then Some 62
      else if n = 47 then Some 63
      else None)"

definition strip_padding :: "string \<Rightarrow> string" where
  "strip_padding s =
     (if length s mod 4 = 0 \<and> s \<noteq> [] \<and> last s = CHR ''=''
      then (if butlast s \<noteq> [] \<and> last (butlast s) = CHR ''=''
            then butlast (butlast s) else butlast s)
      else s)"

fun decode_sextets :: "nat list \<Rightarrow> nat list" where
  "decode_sextets (a # b # c # d # rest) =
     (let n = ((a * 64 + b) * 64 + c) * 64 + d
      in n div 65536 # (n div 256) mod 256 # n mod 256 # decode_sextets rest)"
| "decode_sextets [a, b, c] =
     (let n = ((a * 64 + b) * 64 + c) div 4 in [n div 256, n mod 256])"
| "decode_sextets [a, b] = [(a * 64 + b) div 16]"
| "decode_sextets [a] = []"
| "decode_sextets [] = []"

text \<open>The result is the binary string, as the list of its character codes.\<close>

definition atob :: "string \<Rightarrow> nat list option" where
  "atob s =
     (let t = strip_padding (filter (\<lambda>c. \<not> is_ascii_whitespace c) s) in
      if length t mod 4 = 1 then None
      else (case those (map b64_value t) of
              None \<Rightarrow> None
            | Some sextets \<Rightarrow> Some (decode_sextets sextets)))"

definition base64ToArrayBuffer :: "json \<Rightarrow> error + 8 word list" where
  "base64ToArrayBuffer base64 =
     (case ToString base64 of
        None \<Rightarrow> Inl TypeError
      | Some s \<Rightarrow>
          (case atob s of
             None \<Rightarrow> Inl InvalidCharacterError
           | Some binaryString \<Rightarrow> Inr (map of_nat binaryString)))"

text \<open>
  \<^verbatim>\<open>blobToJSON\<close>: the reader delivers the text of the blob or fails; \<^verbatim>\<open>JSON.parse\<close>
  is the platform's and is a parameter, \<open>None\<close> standing for its \<^verbatim>\<open>SyntaxError\<close>. The
  promise is rejected (\<open>Inl\<close>) or resolved (\<open>Inr\<close>).
\<close>

datatype blob = Blob string | UnreadableBlob

definition blobToJSON :: "(string \<Rightarrow> json option) \<Rightarrow> blob \<Rightarrow> error + json" where
  "blobToJSON parse b =
     (case b of
        UnreadableBlob \<Rightarrow> Inl (Error ''Failed to read blob'')
      | Blob text \<Rightarrow>
          (case parse text of
             None \<Rightarrow> Inl (Error ''Failed to parse blob as JSON'')
           | Some j \<Rightarrow> Inr j))"

subsection \<open>A parser for the frames of the examples\<close>

text \<open>
  \<^verbatim>\<open>JSON.parse\<close> on a text of eight-bit characters, by recursive descent over the
  JSON grammar. It decides well-formedness as the platform does. A number literal is
  kept as written (with \<^verbatim>\<open>-0\<close> as \<^verbatim>\<open>0\<close>), which is its \<^verbatim>\<open>ToString\<close> text for an
  integer literal of at most 15 digits; the code unit of a \<^verbatim>\<open>\u\<close> escape is kept
  modulo 256, which its last two digits give. The theorems below hold for every
  parser; this one supplies the concrete frames.
\<close>

definition is_ws :: "char \<Rightarrow> bool" where
  "is_ws c = ((of_char c :: nat) \<in> {9, 10, 13, 32})"

definition skip_ws :: "string \<Rightarrow> string" where
  "skip_ws s = dropWhile is_ws s"

definition is_digit :: "char \<Rightarrow> bool" where
  "is_digit c = (48 \<le> (of_char c :: nat) \<and> (of_char c :: nat) \<le> 57)"

definition hex_value :: "char \<Rightarrow> nat option" where
  "hex_value c =
     (let n = (of_char c :: nat) in
      if 48 \<le> n \<and> n \<le> 57 then Some (n - 48)
      else if 65 \<le> n \<and> n \<le> 70 then Some (n - 55)
      else if 97 \<le> n \<and> n \<le> 102 then Some (n - 87)
      else None)"

definition escape_char :: "char \<Rightarrow> char option" where
  "escape_char c =
     (if c = CHR ''\"'' \<or> c = CHR 0x5C \<or> c = CHR ''/'' then Some c
      else if c = CHR ''b'' then Some (CHR 0x08)
      else if c = CHR ''f'' then Some (CHR 0x0C)
      else if c = CHR ''n'' then Some (CHR 0x0A)
      else if c = CHR ''r'' then Some (CHR 0x0D)
      else if c = CHR ''t'' then Some (CHR 0x09)
      else None)"

text \<open>The characters of a string after its opening quote, up to the closing one.\<close>

fun parse_chars :: "string \<Rightarrow> (string \<times> string) option" where
  "parse_chars [] = None"
| "parse_chars (c # cs) =
     (if c = CHR ''\"'' then Some ([], cs)
      else if (of_char c :: nat) < 32 then None
      else if c = CHR 0x5C then
        (case cs of
           [] \<Rightarrow> None
         | e # r \<Rightarrow>
             if e = CHR ''u'' then
               (case r of
                  h1 # h2 # h3 # h4 # r' \<Rightarrow>
                    (case (hex_value h1, hex_value h2, hex_value h3, hex_value h4) of
                       (Some a, Some b, Some c', Some d) \<Rightarrow>
                         (case parse_chars r' of
                            None \<Rightarrow> None
                          | Some (s, rest) \<Rightarrow>
                              Some (char_of (c' * 16 + d) # s, rest))
                     | _ \<Rightarrow> None)
                | _ \<Rightarrow> None)
             else
               (case escape_char e of
                  None \<Rightarrow> None
                | Some x \<Rightarrow>
                    (case parse_chars r of
                       None \<Rightarrow> None
                     | Some (s, rest) \<Rightarrow> Some (x # s, rest))))
      else
        (case parse_chars cs of
           None \<Rightarrow> None
         | Some (s, rest) \<Rightarrow> Some (c # s, rest)))"

text \<open>One or more digits.\<close>

definition parse_digits :: "string \<Rightarrow> (string \<times> string) option" where
  "parse_digits s =
     (if takeWhile is_digit s = [] then None
      else Some (takeWhile is_digit s, dropWhile is_digit s))"

definition parse_int_part :: "string \<Rightarrow> (string \<times> string) option" where
  "parse_int_part s =
     (case s of
        [] \<Rightarrow> None
      | c # cs \<Rightarrow> if c = CHR ''0'' then Some ([c], cs) else parse_digits s)"

definition parse_frac :: "string \<Rightarrow> (string \<times> string) option" where
  "parse_frac s =
     (case s of
        c # cs \<Rightarrow>
          if c = CHR ''.''
          then (case parse_digits cs of None \<Rightarrow> None | Some (ds, r) \<Rightarrow> Some (c # ds, r))
          else Some ([], s)
      | [] \<Rightarrow> Some ([], s))"

definition parse_exp :: "string \<Rightarrow> (string \<times> string) option" where
  "parse_exp s =
     (case s of
        c # cs \<Rightarrow>
          if c = CHR ''e'' \<or> c = CHR ''E''
          then
            (let (sign, r) = (case cs of
                                d # ds \<Rightarrow> if d = CHR ''+'' \<or> d = CHR ''-'' then ([d], ds) else ([], cs)
                              | [] \<Rightarrow> ([], cs))
             in case parse_digits r of
                  None \<Rightarrow> None
                | Some (ds, r') \<Rightarrow> Some (c # sign @ ds, r'))
          else Some ([], s)
      | [] \<Rightarrow> Some ([], s))"

definition parse_number :: "string \<Rightarrow> (json \<times> string) option" where
  "parse_number s =
     (let (sign, r0) = (case s of
                          c # cs \<Rightarrow> if c = CHR ''-'' then ([c], cs) else ([], s)
                        | [] \<Rightarrow> ([], s))
      in case parse_int_part r0 of
           None \<Rightarrow> None
         | Some (i, r1) \<Rightarrow>
             (case parse_frac r1 of
                None \<Rightarrow> None
              | Some (f, r2) \<Rightarrow>
                  (case parse_exp r2 of
                     None \<Rightarrow> None
                   | Some (e, r3) \<Rightarrow>
                       Some (JNum (if sign @ i @ f @ e = ''-0'' then ''0'' else sign @ i @ f @ e),
                             r3))))"

text \<open>A later member with the same key replaces the value of the earlier one.\<close>

fun put :: "string \<Rightarrow> json \<Rightarrow> (string \<times> json) list \<Rightarrow> (string \<times> json) list" where
  "put k v [] = [(k, v)]"
| "put k v ((k', v') # kvs) = (if k' = k then (k, v) # kvs else (k', v') # put k v kvs)"

text \<open>
  The first argument bounds the depth of the recursion; two steps of it consume at
  least one character, so twice the length of the text is enough.
\<close>

fun parse_value :: "nat \<Rightarrow> string \<Rightarrow> (json \<times> string) option"
  and parse_elements :: "nat \<Rightarrow> json list \<Rightarrow> string \<Rightarrow> (json \<times> string) option"
  and parse_members :: "nat \<Rightarrow> (string \<times> json) list \<Rightarrow> string \<Rightarrow> (json \<times> string) option"
where
  "parse_value 0 s = None"
| "parse_value (Suc n) s =
     (case s of
        [] \<Rightarrow> None
      | c # cs \<Rightarrow>
          if c = CHR ''{'' then
            (case skip_ws cs of
               d # ds \<Rightarrow> if d = CHR ''}'' then Some (JObj [], ds) else parse_members n [] (d # ds)
             | [] \<Rightarrow> None)
          else if c = CHR ''['' then
            (case skip_ws cs of
               d # ds \<Rightarrow> if d = CHR '']'' then Some (JArr [], ds) else parse_elements n [] (d # ds)
             | [] \<Rightarrow> None)
          else if c = CHR ''\"'' then
            (case parse_chars cs of None \<Rightarrow> None | Some (str, r) \<Rightarrow> Some (JStr str, r))
          else if take 4 s = ''true'' then Some (JBool True, drop 4 s)
          else if take 5 s = ''false'' then Some (JBool False, drop 5 s)
          else if take 4 s = ''null'' then Some (JNull, drop 4 s)
          else parse_number s)"
| "parse_elements 0 acc s = None"
| "parse_elements (Suc n) acc s =
     (case parse_value n s of
        None \<Rightarrow> None
      | Some (v, r) \<Rightarrow>
          (case skip_ws r of
             d # ds \<Rightarrow>
               if d = CHR '']'' then Some (JArr (acc @ [v]), ds)
               else if d = CHR '','' then parse_elements n (acc @ [v]) (skip_ws ds)
               else None
           | [] \<Rightarrow> None))"
| "parse_members 0 acc s = None"
| "parse_members (Suc n) acc s =
     (case s of
        c # cs \<Rightarrow>
          if c = CHR ''\"'' then
            (case parse_chars cs of
               None \<Rightarrow> None
             | Some (k, r) \<Rightarrow>
                 (case skip_ws r of
                    d # ds \<Rightarrow>
                      if d = CHR '':'' then
                        (case parse_value n (skip_ws ds) of
                           None \<Rightarrow> None
                         | Some (v, r') \<Rightarrow>
                             (case skip_ws r' of
                                e # es \<Rightarrow>
                                  if e = CHR ''}'' then Some (JObj (put k v acc), es)
                                  else if e = CHR '','' then parse_members n (put k v acc) (skip_ws es)
                                  else None
                              | [] \<Rightarrow> None))
                      else None
                  | [] \<Rightarrow> None))
          else None
      | [] \<Rightarrow> None)"

definition JSON_parse :: "string \<Rightarrow> json option" where
  "JSON_parse s =
     (case parse_value (2 * length s + 3) (skip_ws s) of
        None \<Rightarrow> None
      | Some (v, r) \<Rightarrow> if skip_ws r = [] then Some v else None)"


section \<open>The session client (src/lib/multimodal-live-client.ts)\<close>

subsection \<open>Messages, events and effects\<close>

record GenerativeContentBlob =
  mimeType :: string
  data :: string

record Content =
  role :: string
  parts :: "json list"

text \<open>
  The outgoing union of the types file. The config and a tool response are objects
  the client only stores and wraps.
\<close>

type_synonym LiveConfig = json

datatype LiveOutgoingMessage =
    SetupMessage LiveConfig
  | ClientContentMessage "Content list" bool
  | RealtimeInputMessage "GenerativeContentBlob list"
  | ToolResponseMessage json

datatype log_message =
    Text string
  | Outgoing LiveOutgoingMessage
  | Incoming json

record Event =
  ev_type :: string

record CloseEvent = Event +
  reason :: string

text \<open>
  The events of \<^verbatim>\<open>MultimodalLiveClientEventTypes\<close>. A log entry carries its type
  and message; its date is the wall clock and is left out.
\<close>

datatype event =
    OpenEv
  | LogEv string log_message
  | CloseEv CloseEvent
  | AudioEv "8 word list"
  | ContentEv json
  | InterruptedEv
  | SetupCompleteEv
  | TurnCompleteEv
  | ToolCallEv "json option"
  | ToolCallCancellationEv "json option"

text \<open>
  What a handler does to the outside, in order: an event handed to the listeners, a
  frame handed to a socket (the message that \<^verbatim>\<open>JSON.stringify\<close> serialises), a
  socket closed, a listener added or removed, the promise of a connection attempt
  settled, a console warning. Sockets are numbered.
\<close>

datatype action =
    Emit event
  | WsSend nat LiveOutgoingMessage
  | WsClose nat
  | RemoveErrorListener nat
  | AddCloseListener nat
  | Resolve bool
  | Reject error
  | ConsoleWarn string

record client =
  ws :: "nat option"
  config :: "LiveConfig option"
  url :: string

definition client_log :: "string \<Rightarrow> log_message \<Rightarrow> action" where
  "client_log t m = Emit (LogEv t m)"

subsection \<open>Sending\<close>

definition sendDirect ::
  "client \<Rightarrow> LiveOutgoingMessage \<Rightarrow> error + action list" where
  "sendDirect c request =
     (case ws c of
        None \<Rightarrow> Inl (Error ''WebSocket is not connected'')
      | Some s \<Rightarrow> Inr [WsSend s request])"

text \<open>
  The public calls return the thrown error or \<open>()\<close>, and what they did before. None
  of them changes the client. \<^verbatim>\<open>send\<close> takes a part or an array of parts.
\<close>

definition send :: "client \<Rightarrow> json \<Rightarrow> bool \<Rightarrow> (error + unit) \<times> action list" where
  "send c ps turnComplete =
     (let content = \<lparr>role = ''user'', parts = (case ps of JArr xs \<Rightarrow> xs | p \<Rightarrow> [p])\<rparr>;
          clientContentRequest = ClientContentMessage [content] turnComplete
      in case sendDirect c clientContentRequest of
           Inl e \<Rightarrow> (Inl e, [])
         | Inr tr \<Rightarrow> (Inr (), tr @ [client_log ''client.send'' (Outgoing clientContentRequest)]))"

definition analyzeMediaTypes :: "GenerativeContentBlob list \<Rightarrow> bool \<times> bool" where
  "analyzeMediaTypes chunks =
     foldl (\<lambda>(hasAudio, hasVideo) chunk.
              (hasAudio \<or> includes_str (mimeType chunk) ''audio'',
               hasVideo \<or> includes_str (mimeType chunk) ''image''))
           (False, False) chunks"

definition formatMediaMessage :: "bool \<times> bool \<Rightarrow> string" where
  "formatMediaMessage t =
     (case t of (hasAudio, hasVideo) \<Rightarrow>
        if hasAudio \<and> hasVideo then ''audio + video''
        else if hasAudio then ''audio''
        else if hasVideo then ''video''
        else ''unknown'')"

definition sendRealtimeInput ::
  "client \<Rightarrow> GenerativeContentBlob list \<Rightarrow> (error + unit) \<times> action list" where
  "sendRealtimeInput c chunks =
     (let mediaTypes = analyzeMediaTypes chunks;
          message = formatMediaMessage mediaTypes;
          data = RealtimeInputMessage chunks
      in case sendDirect c data of
           Inl e \<Rightarrow> (Inl e, [])
         | Inr tr \<Rightarrow> (Inr (), tr @ [client_log ''client.realtimeInput'' (Text message)]))"

definition sendToolResponse ::
  "client \<Rightarrow> json \<Rightarrow> (error + unit) \<times> action list" where
  "sendToolResponse c toolResponse =
     (let message = ToolResponseMessage toolResponse
      in case sendDirect c message of
           Inl e \<Rightarrow> (Inl e, [])
         | Inr tr \<Rightarrow> (Inr (), tr @ [client_log ''client.toolResponse'' (Outgoing message)]))"

subsection \<open>Connection lifecycle\<close>

text \<open>
  \<^verbatim>\<open>connect\<close> stores the config and then awaits \<^verbatim>\<open>establishConnection\<close>, at most
  \<^verbatim>\<open>reconnectAttempts\<close> times; each attempt constructs a socket and installs the
  listeners below on it.
\<close>

definition connect :: "client \<Rightarrow> LiveConfig \<Rightarrow> client" where
  "connect c cfg = c\<lparr>config := Some cfg\<rparr>"

text \<open>\<^verbatim>\<open>disconnect(ws?)\<close>: the argument is absent (\<open>None\<close>) or a socket.\<close>

definition disconnect ::
  "client \<Rightarrow> nat option \<Rightarrow> bool \<times> client \<times> action list" where
  "disconnect c w =
     (case ws c of
        Some s \<Rightarrow>
          if w = None \<or> ws c = w
          then (True, c\<lparr>ws := None\<rparr>,
                [WsClose s, client_log ''client.close'' (Text ''Disconnected'')])
          else (False, c, [])
      | None \<Rightarrow> (False, c, []))"

text \<open>\<^verbatim>\<open>!this.config\<close> holds of \<^verbatim>\<open>null\<close> (\<open>None\<close>) and of a falsy value.\<close>

definition handleOpenConnection ::
  "client \<Rightarrow> nat \<Rightarrow> Event \<Rightarrow> client \<times> action list" where
  "handleOpenConnection c w ev =
     (case (case config c of None \<Rightarrow> None | Some cfg \<Rightarrow> if truthy cfg then Some cfg else None) of
        None \<Rightarrow> (c, [Reject (Error ''Invalid config provided to connect()'')])
      | Some cfg \<Rightarrow>
          (let c1 = c\<lparr>ws := Some w\<rparr>;
               setupMessage = SetupMessage cfg
           in case sendDirect c1 setupMessage of
                Inl e \<Rightarrow>
                  (c1, [client_log (''client.'' @ ev_type ev) (Text ''Connected to socket''),
                        Emit OpenEv])
              | Inr tr \<Rightarrow>
                  (c1, [client_log (''client.'' @ ev_type ev) (Text ''Connected to socket''),
                        Emit OpenEv]
                       @ tr
                       @ [client_log ''client.send'' (Text ''setup''),
                          RemoveErrorListener w, AddCloseListener w, Resolve True])))"

definition onError :: "client \<Rightarrow> nat \<Rightarrow> Event \<Rightarrow> client \<times> action list" where
  "onError c w ev =
     (case disconnect c (Some w) of (r, c1, tr) \<Rightarrow>
        (let message = ''Connection failed to \"'' @ url c @ ''\"''
         in (c1, tr @ [client_log (''server.'' @ ev_type ev) (Text message),
                       Reject (Error message)])))"

definition parseCloseReason :: "string \<Rightarrow> string" where
  "parseCloseReason r =
     (if \<not> includes_str (toLowerCase r) ''error'' then r
      else
        let prelude = ''ERROR]'';
            preludeIndex = indexOf r prelude
        in if preludeIndex > 0
           then js_slice (preludeIndex + int (length prelude) + 1) r
           else r)"

definition handleCloseConnection ::
  "client \<Rightarrow> nat \<Rightarrow> CloseEvent \<Rightarrow> client \<times> action list" where
  "handleCloseConnection c w ev =
     (case disconnect c (Some w) of (r, c1, tr) \<Rightarrow>
        (let rsn = parseCloseReason (reason ev)
         in (c1, tr @ [client_log (''server.'' @ ev_type ev)
                         (Text (''Disconnected '' @ (if rsn \<noteq> [] then ''with reason: '' @ rsn else []))),
                       Emit (CloseEv ev)])))"

subsection \<open>Receiving\<close>

definition handleToolCall :: "json \<Rightarrow> action list" where
  "handleToolCall response =
     [client_log ''server.toolCall'' (Incoming response),
      Emit (ToolCallEv (lookup response ''toolCall''))]"

definition handleToolCallCancellation :: "json \<Rightarrow> action list" where
  "handleToolCallCancellation response =
     [client_log ''receive.toolCallCancellation'' (Incoming response),
      Emit (ToolCallCancellationEv (lookup response ''toolCallCancellation''))]"

definition handleSetupComplete :: "action list" where
  "handleSetupComplete = [client_log ''server.send'' (Text ''setupComplete''), Emit SetupCompleteEv]"

text \<open>The callback of \<^verbatim>\<open>parts.filter\<close>: \<^verbatim>\<open>p.inlineData?.mimeType.startsWith("audio/pcm")\<close>.\<close>

definition isAudioPart :: "json \<Rightarrow> error + bool" where
  "isAudioPart p =
     (case member p ''inlineData'' of
        Inl e \<Rightarrow> Inl e
      | Inr None \<Rightarrow> Inr False
      | Inr (Some JNull) \<Rightarrow> Inr False
      | Inr (Some v) \<Rightarrow>
          (case lookup v ''mimeType'' of
             Some (JStr s) \<Rightarrow> Inr (startsWith s ''audio/pcm'')
           | _ \<Rightarrow> Inl TypeError))"

fun filterE :: "('a \<Rightarrow> error + bool) \<Rightarrow> 'a list \<Rightarrow> error + 'a list" where
  "filterE f [] = Inr []"
| "filterE f (x # xs) =
     (case f x of
        Inl e \<Rightarrow> Inl e
      | Inr b \<Rightarrow>
          (case filterE f xs of
             Inl e \<Rightarrow> Inl e
           | Inr ys \<Rightarrow> Inr (if b then x # ys else ys)))"

text \<open>
  lodash's \<^verbatim>\<open>difference\<close> keeps the elements of the first array that are not in the
  second, comparing objects by identity. The parts of a parsed frame are distinct
  objects and an audio part is never equal to a part that is not one, so comparing
  the values is the same here.
\<close>

definition difference :: "'a list \<Rightarrow> 'a list \<Rightarrow> 'a list" where
  "difference xs ys = filter (\<lambda>x. x \<notin> set ys) xs"

text \<open>The argument is \<^verbatim>\<open>modelTurn.parts\<close>; \<^verbatim>\<open>filter\<close> exists on arrays only.\<close>

definition separateContentParts :: "json option \<Rightarrow> error + json list \<times> json list" where
  "separateContentParts ps =
     (case ps of
        Some (JArr xs) \<Rightarrow>
          (case filterE isAudioPart xs of
             Inl e \<Rightarrow> Inl e
           | Inr audioParts \<Rightarrow> Inr (audioParts, difference xs audioParts))
      | _ \<Rightarrow> Inl TypeError)"

text \<open>\<^verbatim>\<open>part.inlineData?.data\<close>.\<close>

definition inlineData_data :: "json \<Rightarrow> error + json option" where
  "inlineData_data part =
     (case member part ''inlineData'' of
        Inl e \<Rightarrow> Inl e
      | Inr None \<Rightarrow> Inr None
      | Inr (Some JNull) \<Rightarrow> Inr None
      | Inr (Some v) \<Rightarrow> Inr (lookup v ''data''))"

fun processAudioParts :: "json list \<Rightarrow> (error + unit) \<times> action list" where
  "processAudioParts [] = (Inr (), [])"
| "processAudioParts (part # rest) =
     (case inlineData_data part of
        Inl e \<Rightarrow> (Inl e, [])
      | Inr None \<Rightarrow> processAudioParts rest
      | Inr (Some d) \<Rightarrow>
          (if truthy d
           then
             (case base64ToArrayBuffer d of
                Inl e \<Rightarrow> (Inl e, [])
              | Inr bytes \<Rightarrow>
                  (case processAudioParts rest of (r, tr) \<Rightarrow>
                     (r, [Emit (AudioEv bytes),
                          client_log ''server.audio''
                            (Text (''buffer ('' @ show_nat (length bytes) @ '')''))] @ tr)))
           else processAudioParts rest))"

text \<open>The argument is \<^verbatim>\<open>serverContent.modelTurn\<close>.\<close>

definition processModelTurn :: "json option \<Rightarrow> (error + unit) \<times> action list" where
  "processModelTurn modelTurn =
     (case (case modelTurn of None \<Rightarrow> Inl TypeError | Some m \<Rightarrow> member m ''parts'') of
        Inl e \<Rightarrow> (Inl e, [])
      | Inr ps \<Rightarrow>
          (case separateContentParts ps of
             Inl e \<Rightarrow> (Inl e, [])
           | Inr (audioParts, otherParts) \<Rightarrow>
               (case processAudioParts audioParts of
                  (Inl e, tr) \<Rightarrow> (Inl e, tr)
                | (Inr u, tr) \<Rightarrow>
                    (if otherParts \<noteq> []
                     then
                       (let content = JObj [(''modelTurn'', JObj [(''parts'', JArr otherParts)])]
                        in (Inr (), tr @ [Emit (ContentEv content),
                                          client_log ''server.content''
                                            (Incoming (JObj [(''serverContent'', content)]))]))
                     else (Inr (), tr)))))"

text \<open>
  The guards are false on \<^verbatim>\<open>undefined\<close>, so a response without
  \<^verbatim>\<open>serverContent\<close> does nothing.
\<close>

definition handleServerContent :: "json \<Rightarrow> (error + unit) \<times> action list" where
  "handleServerContent response =
     (case lookup response ''serverContent'' of
        None \<Rightarrow> (Inr (), [])
      | Some serverContent \<Rightarrow>
          if isInterrupted serverContent
          then (Inr (), [client_log ''receive.serverContent'' (Text ''interrupted''),
                         Emit InterruptedEv])
          else
            (let tc = (if isTurnComplete serverContent
                       then [client_log ''server.send'' (Text ''turnComplete''),
                             Emit TurnCompleteEv]
                       else [])
             in if isModelTurn serverContent
                then (case processModelTurn (lookup serverContent ''modelTurn'') of
                        (r, tr) \<Rightarrow> (r, tc @ tr))
                else (Inr (), tc)))"

text \<open>\<^verbatim>\<open>receive\<close> after the blob is parsed.\<close>

definition dispatch :: "json \<Rightarrow> (error + unit) \<times> action list" where
  "dispatch response =
     (if isToolCallMessage response then (Inr (), handleToolCall response)
      else if isToolCallCancellationMessage response
      then (Inr (), handleToolCallCancellation response)
      else if isSetupCompleteMessage response then (Inr (), handleSetupComplete)
      else if isServerContenteMessage response then handleServerContent response
      else (Inr (), [ConsoleWarn ''Received unmatched message:'']))"

definition receive ::
  "(string \<Rightarrow> json option) \<Rightarrow> blob \<Rightarrow> (error + unit) \<times> action list" where
  "receive parse b =
     (case blobToJSON parse b of
        Inl e \<Rightarrow> (Inl e, [])
      | Inr response \<Rightarrow> dispatch response)"

text \<open>The message listener of \<^verbatim>\<open>establishConnection\<close>.\<close>

datatype ws_data = BlobData blob | OtherData

definition onMessage ::
  "(string \<Rightarrow> json option) \<Rightarrow> ws_data \<Rightarrow> (error + unit) \<times> action list" where
  "onMessage parse d =
     (case d of
        BlobData b \<Rightarrow> receive parse b
      | OtherData \<Rightarrow> (Inr (), [ConsoleWarn ''Received non-blob message:'']))"

subsection \<open>The client as a machine\<close>

text \<open>
  The calls of the application and the events of the sockets, in the order in which
  the event loop runs them. A listener runs whenever its event is put in; the machine
  does not restrict the order of the events, so every run of the client is a run of
  the machine.
\<close>

datatype input =
    Connect LiveConfig
  | SockOpen nat
  | SockError nat
  | SockClose nat string
  | SockMessage nat ws_data
  | CallSend json bool
  | CallSendRealtimeInput "GenerativeContentBlob list"
  | CallSendToolResponse json
  | CallDisconnect

definition step ::
  "(string \<Rightarrow> json option) \<Rightarrow> client \<Rightarrow> input \<Rightarrow> client \<times> action list" where
  "step parse c i =
     (case i of
        Connect cfg \<Rightarrow> (connect c cfg, [])
      | SockOpen w \<Rightarrow> handleOpenConnection c w \<lparr>ev_type = ''open''\<rparr>
      | SockError w \<Rightarrow> onError c w \<lparr>ev_type = ''error''\<rparr>
      | SockClose w r \<Rightarrow> handleCloseConnection c w \<lparr>ev_type = ''close'', reason = r\<rparr>
      | SockMessage w d \<Rightarrow> (c, snd (onMessage parse d))
      | CallSend ps tc \<Rightarrow> (c, snd (send c ps tc))
      | CallSendRealtimeInput chunks \<Rightarrow> (c, snd (sendRealtimeInput c chunks))
      | CallSendToolResponse r \<Rightarrow> (c, snd (sendToolResponse c r))
      | CallDisconnect \<Rightarrow> (case disconnect c None of (r, c1, tr) \<Rightarrow> (c1, tr)))"

fun run ::
  "(string \<Rightarrow> json option) \<Rightarrow> client \<Rightarrow> input list \<Rightarrow> client \<times> action list" where
  "run parse c [] = (c, [])"
| "run parse c (i # is) =
     (case step parse c i of (c1, tr) \<Rightarrow>
        (case run parse c1 is of (c2, tr') \<Rightarrow> (c2, tr @ tr')))"

definition new_client :: "string \<Rightarrow> client" where
  "new_client u = \<lparr>ws = None, config = None, url = u\<rparr>"

text \<open>The frames handed to one socket, in order.\<close>

fun frames_on :: "nat \<Rightarrow> action list \<Rightarrow> LiveOutgoingMessage list" where
  "frames_on w [] = []"
| "frames_on w (WsSend w' m # tr) = (if w' = w then m # frames_on w tr else frames_on w tr)"
| "frames_on w (a # tr) = frames_on w tr"

text \<open>The events handed to the listeners, without the log entries.\<close>

fun events_of :: "action list \<Rightarrow> event list" where
  "events_of [] = []"
| "events_of (Emit (LogEv t m) # tr) = events_of tr"
| "events_of (Emit e # tr) = e # events_of tr"
| "events_of (a # tr) = events_of tr"

subsection \<open>Typed parts\<close>

text \<open>
  The declared type of a part: an object whose \<^verbatim>\<open>inlineData\<close>, when present, is an
  object with a string \<^verbatim>\<open>mimeType\<close>.
\<close>

definition is_Part :: "json \<Rightarrow> bool" where
  "is_Part p =
     (case p of
        JObj kvs \<Rightarrow>
          (case map_of kvs ''inlineData'' of
             None \<Rightarrow> True
           | Some (JObj ikvs) \<Rightarrow>
               (case map_of ikvs ''mimeType'' of Some (JStr s) \<Rightarrow> True | _ \<Rightarrow> False)
           | Some v \<Rightarrow> False)
      | _ \<Rightarrow> False)"

definition is_audio :: "json \<Rightarrow> bool" where
  "is_audio p = (isAudioPart p = Inr True)"

text \<open>
  What the loop of \<^verbatim>\<open>processAudioParts\<close> does with one part: nothing (\<open>None\<close>) when
  \<^verbatim>\<open>part.inlineData?.data\<close> is falsy, else the decoded bytes or the error thrown.
\<close>

definition audio_bytes :: "json \<Rightarrow> (error + 8 word list) option" where
  "audio_bytes part =
     (case inlineData_data part of
        Inl e \<Rightarrow> Some (Inl e)
      | Inr None \<Rightarrow> None
      | Inr (Some d) \<Rightarrow> if truthy d then Some (base64ToArrayBuffer d) else None)"

definition decoded :: "json \<Rightarrow> 8 word list option" where
  "decoded part = (case audio_bytes part of Some (Inr bytes) \<Rightarrow> Some bytes | _ \<Rightarrow> None)"

text \<open>The effects of one part in \<^verbatim>\<open>processAudioParts\<close> when nothing is thrown.\<close>

definition audio_actions :: "json \<Rightarrow> action list" where
  "audio_actions p =
     (case decoded p of
        Some bytes \<Rightarrow>
          [Emit (AudioEv bytes),
           client_log ''server.audio'' (Text (''buffer ('' @ show_nat (length bytes) @ '')''))]
      | None \<Rightarrow> [])"

subsection \<open>Invariants of the machine\<close>

text \<open>
  What the receive path does, \<^verbatim>\<open>setupcomplete\<close> apart: it emits events and warns
  on the console; it sends nothing and settles nothing.
\<close>

definition from_server :: "action \<Rightarrow> bool" where
  "from_server a =
     (case a of
        Emit SetupCompleteEv \<Rightarrow> False
      | Emit e \<Rightarrow> True
      | ConsoleWarn s \<Rightarrow> True
      | _ \<Rightarrow> False)"

text \<open>
  After the inputs \<open>past\<close>: the frames of every socket start with the setup of a
  config that was passed to \<^verbatim>\<open>connect\<close>, the stored socket has been sent that frame,
  and the stored config came from \<^verbatim>\<open>connect\<close>.
\<close>

definition setup_first :: "input list \<Rightarrow> client \<Rightarrow> action list \<Rightarrow> bool" where
  "setup_first past c tr =
     ((\<forall>w. frames_on w tr = []
           \<or> (\<exists>cfg. Connect cfg \<in> set past \<and> hd (frames_on w tr) = SetupMessage cfg))
      \<and> (\<forall>w. ws c = Some w \<longrightarrow> frames_on w tr \<noteq> [])
      \<and> (\<forall>cfg. config c = Some cfg \<longrightarrow> Connect cfg \<in> set past))"

subsection \<open>Sample values\<close>

text \<open>Parts, a config and a run of the machine, for the concrete instances below.\<close>

definition text_part :: json where
  "text_part = JObj [(''text'', JStr ''hi'')]"

definition audio_part :: json where
  "audio_part =
     JObj [(''inlineData'',
            JObj [(''mimeType'', JStr ''audio/pcm;rate=24000''), (''data'', JStr ''AAEC'')])]"

definition silent_audio_part :: json where
  "silent_audio_part = JObj [(''inlineData'', JObj [(''mimeType'', JStr ''audio/pcm;rate=24000'')])]"

definition image_part :: json where
  "image_part =
     JObj [(''inlineData'', JObj [(''mimeType'', JStr ''image/jpeg''), (''data'', JStr ''AAEC'')])]"

definition sample_parts :: "json list" where
  "sample_parts = [text_part, audio_part, silent_audio_part, image_part]"

definition interrupted_content :: json where
  "interrupted_content =
     JObj [(''interrupted'', JBool True), (''turnComplete'', JBool True),
           (''modelTurn'', JObj [(''parts'', JArr [text_part])])]"

definition turn_content :: json where
  "turn_content =
     JObj [(''turnComplete'', JBool True), (''modelTurn'', JObj [(''parts'', JArr sample_parts)])]"

definition sample_config :: LiveConfig where
  "sample_config = JObj [(''model'', JStr ''models/gemini-2.0-flash-exp'')]"

definition sample_client :: client where
  "sample_client = \<lparr>ws = Some 0, config = Some sample_config, url = ''wss://host''\<rparr>"

definition sample_inputs :: "input list" where
  "sample_inputs =
     [Connect sample_config, SockOpen 0, CallSend text_part True,
      SockMessage 0 (BlobData (Blob ''{\"setupComplete\":{}}''))]"

section \<open>Properties of the log sink\<close>

lemma js_slice_length:
  assumes "2 \<le> n"
  shows "length (js_slice (- (n - 1)) xs) \<le> nat (n - 1)"
  using assms by (auto simp: js_slice_def Let_def)

lemma log_merges_duplicate:
  assumes "logs st \<noteq> []"
    and "log_type (last (logs st)) = log_type l" and "message (last (logs st)) = message l"
  shows "logs (log st l)
         = butlast (logs st)
           @ [(last (logs st))\<lparr>count := Some (bump_count (count (last (logs st))))\<rparr>]"
proof -
  have dup: "isLogDuplicate (logs st) l"
    using assms by (cases "logs st") (simp_all add: isLogDuplicate_def)
  have "xs \<noteq> [] \<Longrightarrow> xs[length xs - 1 := x] = butlast xs @ [x]" for x and xs :: "'a StreamingLog list"
    by (induction xs rule: rev_induct) simp_all
  from this [OF assms(1)]
  have "(logs st)[length (logs st) - 1 := x] = butlast (logs st) @ [x]" for x .
  then show ?thesis using dup by (simp add: log_def)
qed

lemma log_appends_distinct:
  assumes "\<not> isLogDuplicate (logs st) l" and "2 \<le> maxLogs st"
  shows "logs (log st l) = drop (length (logs st) - nat (maxLogs st - 1)) (logs st) @ [l]"
proof -
  have "nat (max (int (length (logs st)) + (1 - maxLogs st)) 0)
        = length (logs st) - nat (maxLogs st - 1)"
    using assms(2) by (simp add: max_def) linarith
  then show ?thesis
    using assms by (simp add: log_def js_slice_def Let_def)
qed

lemma log_within_capacity:
  assumes "2 \<le> maxLogs st" and "int (length (logs st)) \<le> maxLogs st"
  shows "int (length (logs (log st l))) \<le> maxLogs (log st l)"
  using assms js_slice_length [of "maxLogs st" "logs st"]
  by (auto simp: log_def)

text \<open>
  C5. The sink merges a repeated entry into the preceding one and appends a differing
  one, and is to keep at most \<open>maxLogs\<close> entries, evicting the oldest. With
  \<open>maxLogs = 1\<close> the slice \<^verbatim>\<open>logs.slice(-(maxLogs - 1))\<close> is \<^verbatim>\<open>logs.slice(-0)\<close>, which keeps
  every entry: after two differing entries the store holds both, one more than its
  capacity.
\<close>

theorem log_capacity_one_exceeded:
  "logs (log (log (setMaxLogs initial_store 1) (entry ''client.send'' ''a''))
              (entry ''client.send'' ''b''))
     = [entry ''client.send'' ''a'', entry ''client.send'' ''b'']
   \<and> maxLogs (log (log (setMaxLogs initial_store 1) (entry ''client.send'' ''a''))
                  (entry ''client.send'' ''b'')) = 1"
  by (simp add: log_def isLogDuplicate_def js_slice_def entry_def setMaxLogs_def initial_store_def)

section \<open>Properties of the audio pipelines\<close>

lemma addPCM16_example:
  "addPCM16 new_streamer [0x00, 0x01]
     = Inr \<lparr>pcmSource = Some \<lparr>numberOfChannels = 1, sampleRate = 48000, channel = [1 / 32768]\<rparr>,
            stopped = [],
            started = [\<lparr>numberOfChannels = 1, sampleRate = 48000, channel = [1 / 32768]\<rparr>]\<rparr>"
  by (simp add: addPCM16_def new_streamer_def sample_of_def Let_def)

text \<open>
  C8. \<^verbatim>\<open>addPCM16\<close> is to decode big-endian signed 16-bit samples into \<open>[-1, 1]\<close>. It
  combines the two bytes without sign extension: the bytes \<open>0xFF 0xFF\<close>, the sample
  \<open>-1\<close>, give \<open>65535 / 32768\<close>, not \<open>-1 / 32768\<close>.
\<close>

theorem addPCM16_sample_unsigned:
  "addPCM16 new_streamer [0xFF, 0xFF]
     = Inr \<lparr>pcmSource = Some \<lparr>numberOfChannels = 1, sampleRate = 48000, channel = [65535 / 32768]\<rparr>,
            stopped = [],
            started = [\<lparr>numberOfChannels = 1, sampleRate = 48000, channel = [65535 / 32768]\<rparr>]\<rparr>"
  by (simp add: addPCM16_def new_streamer_def sample_of_def Let_def)

lemma sint_to_int16:
  assumes "- 1 \<le> x" and "x \<le> 1"
  shows "sint (to_int16 x) = \<lfloor>x * 32767 + 1 / 2\<rfloor>"
proof -
  let ?n = "\<lfloor>x * 32767 + 1 / 2\<rfloor>"
  have lo: "- 32767 \<le> ?n"
  proof -
    have "(of_int (- 32767) :: real) \<le> x * 32767 + 1 / 2" using assms by simp
    then show ?thesis by (simp only: le_floor_iff)
  qed
  have hi: "?n \<le> 32767"
  proof -
    have "x * 32767 + 1 / 2 < of_int 32768" using assms by simp
    then have "?n < 32768" by (simp only: floor_less_iff)
    then show ?thesis by simp
  qed
  have "sint (word_of_int ?n :: 16 word) = ?n"
    using lo hi by (simp add: signed_of_int signed_take_bit_int_eq_self)
  then show ?thesis by (simp add: to_int16_def Math_round_def INT16_MAX_def)
qed

lemma processChunk_accumulates:
  assumes "length (buffer w) = BUFFER_SIZE" and "bufferWriteIndex w < BUFFER_SIZE"
  shows "length (buffer (fst (processChunk w xs))) = BUFFER_SIZE
       \<and> bufferWriteIndex (fst (processChunk w xs)) < BUFFER_SIZE
       \<and> concat (snd (processChunk w xs))
           @ take (bufferWriteIndex (fst (processChunk w xs))) (buffer (fst (processChunk w xs)))
         = take (bufferWriteIndex w) (buffer w) @ map to_int16 xs
       \<and> (\<forall>c \<in> set (snd (processChunk w xs)). length c = BUFFER_SIZE)"
  using assms
proof (induction xs arbitrary: w)
  case Nil
  then show ?case by simp
next
  case (Cons x xs)
  let ?w1 = "w\<lparr>buffer := (buffer w)[bufferWriteIndex w := to_int16 x],
                 bufferWriteIndex := bufferWriteIndex w + 1\<rparr>"
  have tk: "take (Suc (bufferWriteIndex w)) ((buffer w)[bufferWriteIndex w := to_int16 x])
            = take (bufferWriteIndex w) (buffer w) @ [to_int16 x]"
    using Cons.prems by (simp add: take_Suc_conv_app_nth)
  show ?case
  proof (cases "Suc (bufferWriteIndex w) = BUFFER_SIZE")
    case True
    let ?w2 = "?w1\<lparr>bufferWriteIndex := 0\<rparr>"
    have ih: "length (buffer (fst (processChunk ?w2 xs))) = BUFFER_SIZE
       \<and> bufferWriteIndex (fst (processChunk ?w2 xs)) < BUFFER_SIZE
       \<and> concat (snd (processChunk ?w2 xs))
           @ take (bufferWriteIndex (fst (processChunk ?w2 xs))) (buffer (fst (processChunk ?w2 xs)))
         = take (bufferWriteIndex ?w2) (buffer ?w2) @ map to_int16 xs
       \<and> (\<forall>c \<in> set (snd (processChunk ?w2 xs)). length c = BUFFER_SIZE)"
      using Cons.prems by (intro Cons.IH) (simp_all add: BUFFER_SIZE_def)
    have step: "processChunk w (x # xs)
        = (fst (processChunk ?w2 xs),
           take (Suc (bufferWriteIndex w)) ((buffer w)[bufferWriteIndex w := to_int16 x])
             # snd (processChunk ?w2 xs))"
      using True Cons.prems by (simp add: sendAndClearBuffer_def Let_def split: prod.splits)
    have len: "length (take (Suc (bufferWriteIndex w)) ((buffer w)[bufferWriteIndex w := to_int16 x]))
               = BUFFER_SIZE"
      using True Cons.prems by simp
    from ih have c: "concat (snd (processChunk ?w2 xs))
           @ take (bufferWriteIndex (fst (processChunk ?w2 xs))) (buffer (fst (processChunk ?w2 xs)))
         = map to_int16 xs" by simp
    show ?thesis
      unfolding step fst_conv snd_conv
      using ih c tk len by (simp del: length_list_update length_take)
  next
    case False
    then have lt: "Suc (bufferWriteIndex w) < BUFFER_SIZE" using Cons.prems by simp
    have ih: "length (buffer (fst (processChunk ?w1 xs))) = BUFFER_SIZE
       \<and> bufferWriteIndex (fst (processChunk ?w1 xs)) < BUFFER_SIZE
       \<and> concat (snd (processChunk ?w1 xs))
           @ take (bufferWriteIndex (fst (processChunk ?w1 xs))) (buffer (fst (processChunk ?w1 xs)))
         = take (bufferWriteIndex ?w1) (buffer ?w1) @ map to_int16 xs
       \<and> (\<forall>c \<in> set (snd (processChunk ?w1 xs)). length c = BUFFER_SIZE)"
      using Cons.prems lt by (intro Cons.IH) simp_all
    have step: "processChunk w (x # xs) = processChunk ?w1 xs"
      using lt Cons.prems by (simp add: Let_def split: prod.splits)
    show ?thesis unfolding step using ih tk by simp
  qed
qed

lemma replicate_update_first: "0 < n \<Longrightarrow> (replicate n x)[0 := y] = y # replicate (n - 1) x"
  by (cases n) simp_all

text \<open>
  C9, as stated: every sample \<open>x\<close> in \<open>[-1, 1]\<close> is stored as \<open>x * 32767\<close> rounded half
  away from zero. The sample \<open>-1/2\<close> is a tie, \<open>-16383.5\<close>: \<^verbatim>\<open>Math.round\<close> takes it
  up to \<open>-16383\<close>, away from zero is \<open>-16384\<close>.
\<close>

theorem processChunk_round_counterexample:
  "- 1 \<le> (- 1 / 2 :: real) \<and> (- 1 / 2 :: real) \<le> 1
   \<and> map sint (take 1 (buffer (fst (processChunk new_worklet [- 1 / 2])))) = [- 16383]
   \<and> spec_round_half_away_from_zero (- 1 / 2 * INT16_MAX) = - 16384"
  by (simp add: to_int16_def Math_round_def INT16_MAX_def new_worklet_def BUFFER_SIZE_def Let_def
      sendAndClearBuffer_def replicate_update_first spec_round_half_away_from_zero_def)

text \<open>
  C9, amended: every sample \<open>x\<close> in \<open>[-1, 1]\<close> is stored as the 16-bit signed integer
  \<open>\<lfloor>x * 32767 + 1/2\<rfloor>\<close> (a tie goes towards plus infinity). The samples fill a buffer
  of 2048 entries in order; each time it is full it is posted whole and refilled from
  its start, so the posted chunks followed by the part of the buffer filled so far
  are the earlier content followed by the converted samples.
\<close>

theorem processChunk_rounds_half_up:
  assumes "length (buffer w) = BUFFER_SIZE" and "bufferWriteIndex w < BUFFER_SIZE"
    and "\<forall>x \<in> set xs. - 1 \<le> x \<and> x \<le> 1"
  shows "map sint (concat (snd (processChunk w xs))
                   @ take (bufferWriteIndex (fst (processChunk w xs)))
                       (buffer (fst (processChunk w xs))))
           = map sint (take (bufferWriteIndex w) (buffer w))
             @ map (\<lambda>x. \<lfloor>x * 32767 + 1 / 2\<rfloor>) xs
       \<and> (\<forall>c \<in> set (snd (processChunk w xs)). length c = 2048)
       \<and> length (buffer (fst (processChunk w xs))) = 2048
       \<and> bufferWriteIndex (fst (processChunk w xs)) < 2048"
proof -
  note acc = processChunk_accumulates [OF assms(1) assms(2), of xs]
  have conv: "map sint (map to_int16 xs) = map (\<lambda>x. \<lfloor>x * 32767 + 1 / 2\<rfloor>) xs"
    using assms(3) by (simp add: sint_to_int16)
  from acc have "map sint (concat (snd (processChunk w xs))
                   @ take (bufferWriteIndex (fst (processChunk w xs)))
                       (buffer (fst (processChunk w xs))))
           = map sint (take (bufferWriteIndex w) (buffer w) @ map to_int16 xs)"
    by simp
  then show ?thesis
    using acc conv by (simp add: BUFFER_SIZE_def)
qed

theorem processChunk_rounds_half_up_witness:
  "length (buffer new_worklet) = BUFFER_SIZE \<and> bufferWriteIndex new_worklet < BUFFER_SIZE
   \<and> list_all (\<lambda>x :: real. - 1 \<le> x \<and> x \<le> 1) [- 1 / 2, 1 / 2, 1, - 1]
   \<and> map sint (concat (snd (processChunk new_worklet [- 1 / 2, 1 / 2, 1, - 1]))
                @ take (bufferWriteIndex (fst (processChunk new_worklet [- 1 / 2, 1 / 2, 1, - 1])))
                    (buffer (fst (processChunk new_worklet [- 1 / 2, 1 / 2, 1, - 1]))))
       = [- 16383, 16384, 32767, - 32767]"
proof -
  have h1: "length (buffer new_worklet) = BUFFER_SIZE"
    by (simp add: new_worklet_def)
  have h2: "bufferWriteIndex new_worklet < BUFFER_SIZE"
    by (simp add: new_worklet_def BUFFER_SIZE_def)
  have h3: "\<forall>x \<in> set [- 1 / 2, 1 / 2, 1, - 1 :: real]. - 1 \<le> x \<and> x \<le> 1"
    by simp
  have e: "take (bufferWriteIndex new_worklet) (buffer new_worklet) = []"
    by (simp add: new_worklet_def)
  have r: "map (\<lambda>x :: real. \<lfloor>x * 32767 + 1 / 2\<rfloor>) [- 1 / 2, 1 / 2, 1, - 1]
           = [- 16383, 16384, 32767, - 32767]"
    by simp
  from processChunk_rounds_half_up [OF h1 h2 h3]
  have "map sint (concat (snd (processChunk new_worklet [- 1 / 2, 1 / 2, 1, - 1]))
                @ take (bufferWriteIndex (fst (processChunk new_worklet [- 1 / 2, 1 / 2, 1, - 1])))
                    (buffer (fst (processChunk new_worklet [- 1 / 2, 1 / 2, 1, - 1]))))
       = [- 16383, 16384, 32767, - 32767]"
    unfolding e r by (simp only: list.map append_Nil)
  moreover have "list_all (\<lambda>x :: real. - 1 \<le> x \<and> x \<le> 1) [- 1 / 2, 1 / 2, 1, - 1]"
    by simp
  ultimately show ?thesis
    using h1 h2 by (simp only: simp_thms)
qed

section \<open>Properties of the session client\<close>

subsection \<open>Sending without a socket\<close>

text \<open>
  C4. With no socket stored, \<^verbatim>\<open>send\<close>, \<^verbatim>\<open>sendRealtimeInput\<close> and
  \<^verbatim>\<open>sendToolResponse\<close> each throw the error \<^verbatim>\<open>WebSocket is not connected\<close> to the
  caller; nothing is handed to a socket and nothing is logged.
\<close>

theorem send_without_socket:
  assumes "ws c = None"
  shows "send c ps tc = (Inl (Error ''WebSocket is not connected''), [])
       \<and> sendRealtimeInput c chunks = (Inl (Error ''WebSocket is not connected''), [])
       \<and> sendToolResponse c r = (Inl (Error ''WebSocket is not connected''), [])"
  using assms
  by (simp add: send_def sendRealtimeInput_def sendToolResponse_def sendDirect_def Let_def)

theorem send_without_socket_witness:
  "ws (new_client ''wss://host'') = None
   \<and> send (new_client ''wss://host'') text_part True
       = (Inl (Error ''WebSocket is not connected''), [])
   \<and> sendRealtimeInput (new_client ''wss://host'')
        [\<lparr>mimeType = ''audio/pcm;rate=16000'', data = ''AAEC''\<rparr>]
       = (Inl (Error ''WebSocket is not connected''), [])
   \<and> sendToolResponse (new_client ''wss://host'') (JObj [(''functionResponses'', JArr [])])
       = (Inl (Error ''WebSocket is not connected''), [])"
proof -
  have h: "ws (new_client ''wss://host'') = None"
    by (simp add: new_client_def)
  show ?thesis
    using h send_without_socket [OF h] by simp
qed

subsection \<open>Disconnecting\<close>

text \<open>
  C7, as stated: \<^verbatim>\<open>disconnect()\<close> on an open socket emits \<^verbatim>\<open>close\<close>. The call returns
  true and emits one log entry, of type \<^verbatim>\<open>client.close\<close>; it emits no other event.
\<close>

theorem disconnect_no_close_event:
  "fst (disconnect sample_client None) = True
   \<and> events_of (snd (snd (disconnect sample_client None))) = []"
  by (simp add: disconnect_def client_log_def sample_client_def)

text \<open>
  C7, amended: \<^verbatim>\<open>disconnect\<close>, called without an argument or with the stored socket
  while a socket is stored, closes that socket, clears the stored reference, emits a
  log entry of type \<^verbatim>\<open>client.close\<close> and returns true; called again, with any
  argument, it returns false, changes nothing and emits nothing. The stored config
  is kept. The \<^verbatim>\<open>close\<close> event is emitted by the close listener of the socket, once,
  when the socket reports that it has closed.
\<close>

theorem disconnect_idempotent:
  assumes "ws c = Some s" and "w = None \<or> w = Some s"
  shows "disconnect c w
           = (True, c\<lparr>ws := None\<rparr>,
              [WsClose s, Emit (LogEv ''client.close'' (Text ''Disconnected''))])
       \<and> disconnect (c\<lparr>ws := None\<rparr>) w' = (False, c\<lparr>ws := None\<rparr>, [])
       \<and> config (c\<lparr>ws := None\<rparr>) = config c
       \<and> handleCloseConnection (c\<lparr>ws := None\<rparr>) s ev
           = (c\<lparr>ws := None\<rparr>,
              [Emit (LogEv (''server.'' @ ev_type ev)
                 (Text (''Disconnected '' @
                    (if parseCloseReason (reason ev) \<noteq> []
                     then ''with reason: '' @ parseCloseReason (reason ev) else [])))),
               Emit (CloseEv ev)])"
  using assms
  by (auto simp: disconnect_def handleCloseConnection_def client_log_def Let_def)

lemma parseCloseReason_empty: "parseCloseReason [] = []"
  by (simp add: parseCloseReason_def toLowerCase_def)

theorem disconnect_idempotent_witness:
  "ws sample_client = Some 0
   \<and> disconnect sample_client None
       = (True, sample_client\<lparr>ws := None\<rparr>,
          [WsClose 0, Emit (LogEv ''client.close'' (Text ''Disconnected''))])
   \<and> disconnect (sample_client\<lparr>ws := None\<rparr>) None = (False, sample_client\<lparr>ws := None\<rparr>, [])
   \<and> config (sample_client\<lparr>ws := None\<rparr>) = Some sample_config
   \<and> handleCloseConnection (sample_client\<lparr>ws := None\<rparr>) 0 \<lparr>ev_type = ''close'', reason = []\<rparr>
       = (sample_client\<lparr>ws := None\<rparr>,
          [Emit (LogEv ''server.close'' (Text ''Disconnected '')),
           Emit (CloseEv \<lparr>ev_type = ''close'', reason = []\<rparr>)])"
proof -
  have h: "ws sample_client = Some 0"
    by (simp add: sample_client_def)
  have c: "config sample_client = Some sample_config"
    by (simp add: sample_client_def)
  from disconnect_idempotent [where c = sample_client and s = 0 and w = None and w' = None
      and ev = "\<lparr>ev_type = ''close'', reason = []\<rparr>", OF h]
  show ?thesis
    using h c by (simp add: parseCloseReason_empty)
qed

subsection \<open>Malformed frames\<close>

lemma JSON_parse_open_brace: "JSON_parse ''{'' = None"
  by code_simp

lemma JSON_parse_truncated: "JSON_parse ''{\"setupComplete\":'' = None"
  by code_simp

text \<open>
  C1, as stated: on a frame that is not JSON the decode step does not throw and the
  failure is logged. The text \<^verbatim>\<open>{\<close> is not JSON: \<^verbatim>\<open>receive\<close> ends with the error of
  \<^verbatim>\<open>blobToJSON\<close>, and nothing is warned, logged or emitted.
\<close>

theorem receive_malformed_counterexample:
  "fst (receive JSON_parse (Blob ''{'')) = Inl (Error ''Failed to parse blob as JSON'')
   \<and> snd (receive JSON_parse (Blob ''{'')) = []"
  by (simp add: receive_def blobToJSON_def JSON_parse_open_brace)

text \<open>
  C1, amended: for every frame whose text \<^verbatim>\<open>JSON.parse\<close> rejects, \<^verbatim>\<open>blobToJSON\<close>
  rejects with the error \<^verbatim>\<open>Failed to parse blob as JSON\<close>, a result distinct from
  every parsed value; \<^verbatim>\<open>receive\<close> passes that rejection on to its caller, the message
  listener, and emits and logs nothing; the client keeps its socket and its config,
  so the failure does not end the session.
\<close>

theorem receive_malformed:
  assumes "parse payload = None"
  shows "blobToJSON parse (Blob payload) = Inl (Error ''Failed to parse blob as JSON'')
       \<and> receive parse (Blob payload) = (Inl (Error ''Failed to parse blob as JSON''), [])
       \<and> step parse c (SockMessage w (BlobData (Blob payload))) = (c, [])"
  using assms by (simp add: blobToJSON_def receive_def step_def onMessage_def)

theorem receive_malformed_witness:
  "JSON_parse ''{\"setupComplete\":'' = None
   \<and> blobToJSON JSON_parse (Blob ''{\"setupComplete\":'')
       = Inl (Error ''Failed to parse blob as JSON'')
   \<and> receive JSON_parse (Blob ''{\"setupComplete\":'')
       = (Inl (Error ''Failed to parse blob as JSON''), [])
   \<and> step JSON_parse sample_client (SockMessage 0 (BlobData (Blob ''{\"setupComplete\":'')))
       = (sample_client, [])"
  using JSON_parse_truncated
    receive_malformed [where parse = JSON_parse and payload = "''{\"setupComplete\":''"
      and c = sample_client and w = 0]
  by simp

subsection \<open>Server content\<close>

text \<open>
  C3. Within one server-content frame: when the content is interrupted, the
  \<^verbatim>\<open>interrupted\<close> event (with its log entry) is all that is emitted, whatever else the
  frame holds; otherwise, when it holds a turn completion and a model turn, the
  \<^verbatim>\<open>turncomplete\<close> event comes first and everything the model turn emits follows
  it, so a \<^verbatim>\<open>content\<close> event of the frame always has \<^verbatim>\<open>turncomplete\<close> before it.
\<close>

theorem handleServerContent_order:
  assumes "lookup response ''serverContent'' = Some sc"
  shows "(isInterrupted sc \<longrightarrow>
            handleServerContent response
              = (Inr (), [Emit (LogEv ''receive.serverContent'' (Text ''interrupted'')),
                          Emit InterruptedEv]))
       \<and> (\<not> isInterrupted sc \<and> isTurnComplete sc \<and> isModelTurn sc
            \<and> processModelTurn (lookup sc ''modelTurn'') = (r, tr) \<longrightarrow>
            handleServerContent response
              = (r, [Emit (LogEv ''server.send'' (Text ''turnComplete'')), Emit TurnCompleteEv]
                    @ tr))
       \<and> (\<not> isInterrupted sc \<and> isTurnComplete sc
            \<and> Emit (ContentEv x) \<in> set (snd (handleServerContent response)) \<longrightarrow>
            (\<exists>pre post. snd (handleServerContent response) = pre @ Emit (ContentEv x) # post
               \<and> Emit TurnCompleteEv \<in> set pre))"
proof -
  have a: "isInterrupted sc \<longrightarrow>
            handleServerContent response
              = (Inr (), [Emit (LogEv ''receive.serverContent'' (Text ''interrupted'')),
                          Emit InterruptedEv])"
    using assms by (simp add: handleServerContent_def client_log_def)
  have b: "\<not> isInterrupted sc \<and> isTurnComplete sc \<and> isModelTurn sc
            \<and> processModelTurn (lookup sc ''modelTurn'') = (r, tr) \<longrightarrow>
            handleServerContent response
              = (r, [Emit (LogEv ''server.send'' (Text ''turnComplete'')), Emit TurnCompleteEv]
                    @ tr)"
    using assms by (simp add: handleServerContent_def client_log_def Let_def)
  have c: "\<exists>pre post. snd (handleServerContent response) = pre @ Emit (ContentEv x) # post
               \<and> Emit TurnCompleteEv \<in> set pre"
    if ni: "\<not> isInterrupted sc" and tc: "isTurnComplete sc"
      and mem: "Emit (ContentEv x) \<in> set (snd (handleServerContent response))"
  proof -
    let ?tc = "[Emit (LogEv ''server.send'' (Text ''turnComplete'')), Emit TurnCompleteEv]"
    have "snd (handleServerContent response)
          = ?tc @ (if isModelTurn sc then snd (processModelTurn (lookup sc ''modelTurn'')) else [])"
      using assms ni tc
      by (simp add: handleServerContent_def client_log_def Let_def case_prod_beta)
    then obtain rest where tr: "snd (handleServerContent response) = ?tc @ rest"
      by blast
    from mem tr have "Emit (ContentEv x) \<in> set rest" by simp
    then obtain u v where "rest = u @ Emit (ContentEv x) # v"
      by (auto dest: split_list)
    then have "snd (handleServerContent response) = (?tc @ u) @ Emit (ContentEv x) # v
        \<and> Emit TurnCompleteEv \<in> set (?tc @ u)"
      using tr by simp
    then show ?thesis by blast
  qed
  show ?thesis using a b c by blast
qed

subsection \<open>Model turns\<close>

lemma filterE_total:
  "(\<forall>p \<in> set xs. \<exists>b. f p = Inr b) \<Longrightarrow> filterE f xs = Inr (filter (\<lambda>p. f p = Inr True) xs)"
  by (induction xs) auto

lemma filterE_Inr:
  "filterE f xs = Inr ys
   \<Longrightarrow> ys = filter (\<lambda>p. f p = Inr True) xs \<and> (\<forall>p \<in> set xs. \<exists>b. f p = Inr b)"
  by (induction xs arbitrary: ys) (auto split: sum.splits if_splits)

lemma filterE_skip:
  "f p = Inr b \<Longrightarrow> (filterE f (xs @ p # ys) = Inl e) = (filterE f (xs @ ys) = Inl e)"
  by (induction xs) (auto split: sum.splits)

lemma difference_filter: "difference xs (filter P xs) = filter (\<lambda>x. \<not> P x) xs"
  unfolding difference_def by (rule filter_cong) auto

lemma is_Part_isAudioPart: "is_Part p \<Longrightarrow> \<exists>b. isAudioPart p = Inr b"
  by (auto simp: is_Part_def isAudioPart_def split: json.splits option.splits)

lemma is_audio_fun: "(\<lambda>p. isAudioPart p = Inr True) = is_audio"
  by (simp add: is_audio_def fun_eq_iff)

lemma separateContentParts_Inr:
  assumes "filterE isAudioPart zs = Inr a"
  shows "separateContentParts (Some (JArr zs))
           = Inr (filter is_audio zs, filter (\<lambda>q. \<not> is_audio q) zs)"
proof -
  from filterE_Inr [OF assms] have "a = filter is_audio zs"
    unfolding is_audio_fun by blast
  then show ?thesis
    using assms by (simp add: separateContentParts_def difference_filter)
qed

lemma separateContentParts_typed:
  assumes "\<forall>p \<in> set xs. is_Part p"
  shows "separateContentParts (Some (JArr xs))
           = Inr (filter is_audio xs, filter (\<lambda>p. \<not> is_audio p) xs)"
proof -
  have "filterE isAudioPart xs = Inr (filter (\<lambda>p. isAudioPart p = Inr True) xs)"
    using assms by (intro filterE_total) (simp add: is_Part_isAudioPart)
  then show ?thesis by (rule separateContentParts_Inr)
qed

lemma processAudioParts_ok:
  "(\<forall>p \<in> set ps. \<forall>e. audio_bytes p \<noteq> Some (Inl e))
   \<Longrightarrow> processAudioParts ps = (Inr (), concat (map audio_actions ps))"
  by (induction ps)
     (auto simp: audio_bytes_def audio_actions_def decoded_def
       split: sum.splits option.splits if_splits)

lemma events_of_append: "events_of (xs @ ys) = events_of xs @ events_of ys"
  by (induction xs rule: events_of.induct) auto

lemma events_of_audio_actions:
  "events_of (concat (map audio_actions ps)) = map AudioEv (List.map_filter decoded ps)"
  by (induction ps)
     (auto simp: audio_actions_def events_of_append client_log_def List.map_filter_simps
       split: option.splits)

lemma processAudioParts_skip:
  "audio_bytes p = None \<Longrightarrow> processAudioParts (xs @ p # ys) = processAudioParts (xs @ ys)"
  by (induction xs) (auto simp: audio_bytes_def split: sum.splits option.splits if_splits)

lemma processModelTurn_cong:
  assumes "filterE isAudioPart zs = Inr a" and "filterE isAudioPart zs' = Inr a'"
    and "processAudioParts (filter is_audio zs) = processAudioParts (filter is_audio zs')"
    and "filter (\<lambda>q. \<not> is_audio q) zs = filter (\<lambda>q. \<not> is_audio q) zs'"
  shows "processModelTurn (Some (JObj [(''parts'', JArr zs)]))
           = processModelTurn (Some (JObj [(''parts'', JArr zs')]))"
  unfolding processModelTurn_def
  by (simp add: separateContentParts_Inr [OF assms(1)] separateContentParts_Inr [OF assms(2)]
      assms(3) assms(4))

lemma atob_AAEC: "atob ''AAEC'' = Some [0, 1, 2]"
  by (simp add: atob_def strip_padding_def is_ascii_whitespace_def b64_value_def Let_def)

lemma show_nat_3: "show_nat (Suc (Suc (Suc 0))) = ''3''"
  by (simp add: show_nat.simps digit_char_def)

lemma audio_bytes_samples:
  "audio_bytes text_part = None" "audio_bytes audio_part = Some (Inr [0, 1, 2])"
  "audio_bytes silent_audio_part = None" "audio_bytes image_part = Some (Inr [0, 1, 2])"
  by (simp_all add: audio_bytes_def inlineData_data_def base64ToArrayBuffer_def atob_AAEC
      text_part_def audio_part_def silent_audio_part_def image_part_def)

lemma is_audio_samples:
  "\<not> is_audio text_part" "is_audio audio_part" "is_audio silent_audio_part"
  "\<not> is_audio image_part"
  by (simp_all add: is_audio_def isAudioPart_def startsWith_def
      text_part_def audio_part_def silent_audio_part_def image_part_def)

lemma is_Part_samples:
  "is_Part text_part" "is_Part audio_part" "is_Part silent_audio_part" "is_Part image_part"
  by (simp_all add: is_Part_def text_part_def audio_part_def silent_audio_part_def image_part_def)

text \<open>
  C2, as stated: one audio event is emitted per audio part. A part whose mime type
  starts with \<^verbatim>\<open>audio/pcm\<close> and that has no data is an audio part, and no audio event
  is emitted for it: the turn that holds only this part emits nothing.
\<close>

theorem processModelTurn_counterexample:
  "separateContentParts (Some (JArr [silent_audio_part])) = Inr ([silent_audio_part], [])
   \<and> processModelTurn (Some (JObj [(''parts'', JArr [silent_audio_part])])) = (Inr (), [])"
  by (simp add: processModelTurn_def separateContentParts_def isAudioPart_def difference_def
      startsWith_def inlineData_data_def silent_audio_part_def)

text \<open>
  C2, amended: for every list of parts of the declared type, \<^verbatim>\<open>separateContentParts\<close>
  returns the audio parts (mime type starting with \<^verbatim>\<open>audio/pcm\<close>) and the other
  parts, each in the order of the list, and their lengths add up to the length of the
  list. When the data of the audio parts decodes, dispatch emits one audio event for
  each audio part whose data is present and not empty, in order, and then exactly one
  content event that carries all the other parts, if and only if there is one.
\<close>

theorem processModelTurn_partition:
  assumes typed: "\<forall>p \<in> set xs. is_Part p"
    and dec: "\<forall>p \<in> set xs. is_audio p \<longrightarrow> (\<forall>e. audio_bytes p \<noteq> Some (Inl e))"
  shows "separateContentParts (Some (JArr xs))
           = Inr (filter is_audio xs, filter (\<lambda>p. \<not> is_audio p) xs)
       \<and> length (filter is_audio xs) + length (filter (\<lambda>p. \<not> is_audio p) xs) = length xs
       \<and> fst (processModelTurn (Some (JObj [(''parts'', JArr xs)]))) = Inr ()
       \<and> events_of (snd (processModelTurn (Some (JObj [(''parts'', JArr xs)]))))
           = map AudioEv (List.map_filter decoded (filter is_audio xs))
             @ (if filter (\<lambda>p. \<not> is_audio p) xs = [] then []
                else [ContentEv (JObj [(''modelTurn'',
                        JObj [(''parts'', JArr (filter (\<lambda>p. \<not> is_audio p) xs))])])])"
proof -
  have sep: "separateContentParts (Some (JArr xs))
           = Inr (filter is_audio xs, filter (\<lambda>p. \<not> is_audio p) xs)"
    using typed by (rule separateContentParts_typed)
  have len: "length (filter is_audio xs) + length (filter (\<lambda>p. \<not> is_audio p) xs) = length xs"
    by (rule sum_length_filter_compl)
  have aud: "processAudioParts (filter is_audio xs)
           = (Inr (), concat (map audio_actions (filter is_audio xs)))"
    using dec by (intro processAudioParts_ok) simp
  have pmt: "processModelTurn (Some (JObj [(''parts'', JArr xs)]))
           = (Inr (), concat (map audio_actions (filter is_audio xs))
                @ (if filter (\<lambda>p. \<not> is_audio p) xs = [] then []
                   else [Emit (ContentEv (JObj [(''modelTurn'',
                            JObj [(''parts'', JArr (filter (\<lambda>p. \<not> is_audio p) xs))])])),
                         client_log ''server.content''
                           (Incoming (JObj [(''serverContent'', JObj [(''modelTurn'',
                              JObj [(''parts'', JArr (filter (\<lambda>p. \<not> is_audio p) xs))])])]))]))"
    by (simp add: processModelTurn_def sep aud Let_def)
  show ?thesis
    by (simp add: sep len pmt events_of_append events_of_audio_actions client_log_def)
qed

theorem processModelTurn_partition_witness:
  "list_all is_Part sample_parts
   \<and> map audio_bytes sample_parts = [None, Some (Inr [0, 1, 2]), None, Some (Inr [0, 1, 2])]
   \<and> separateContentParts (Some (JArr sample_parts))
       = Inr ([audio_part, silent_audio_part], [text_part, image_part])
   \<and> fst (processModelTurn (Some (JObj [(''parts'', JArr sample_parts)]))) = Inr ()
   \<and> events_of (snd (processModelTurn (Some (JObj [(''parts'', JArr sample_parts)]))))
       = [AudioEv [0, 1, 2],
          ContentEv (JObj [(''modelTurn'', JObj [(''parts'', JArr [text_part, image_part])])])]"
proof -
  have typed: "\<forall>p \<in> set sample_parts. is_Part p"
    by (simp add: sample_parts_def is_Part_samples)
  have dec: "\<forall>p \<in> set sample_parts. is_audio p \<longrightarrow> (\<forall>e. audio_bytes p \<noteq> Some (Inl e))"
    by (simp add: sample_parts_def audio_bytes_samples)
  have f1: "filter is_audio sample_parts = [audio_part, silent_audio_part]"
    by (simp add: sample_parts_def is_audio_samples)
  have f2: "filter (\<lambda>p. \<not> is_audio p) sample_parts = [text_part, image_part]"
    by (simp add: sample_parts_def is_audio_samples)
  have d: "List.map_filter decoded [audio_part, silent_audio_part] = [[0, 1, 2]]"
    by (simp add: List.map_filter_simps decoded_def audio_bytes_samples)
  have h1: "list_all is_Part sample_parts"
    by (simp add: sample_parts_def is_Part_samples)
  have h2: "map audio_bytes sample_parts = [None, Some (Inr [0, 1, 2]), None, Some (Inr [0, 1, 2])]"
    by (simp add: sample_parts_def audio_bytes_samples)
  from processModelTurn_partition [OF typed dec] show ?thesis
    unfolding f1 f2 d using h1 h2 by simp
qed

text \<open>
  C10. A part whose mime type starts with \<^verbatim>\<open>audio/pcm\<close> and whose data is absent or
  the empty string is put with the audio parts and not with the other parts, and it
  leaves no trace: the turn emits and logs exactly what it would without the part.
\<close>

theorem audio_part_without_data_dropped:
  assumes aud: "isAudioPart p = Inr True"
    and nodata: "inlineData_data p = Inr None \<or> inlineData_data p = Inr (Some (JStr []))"
  shows "(separateContentParts (Some (JArr (xs @ p # ys))) = Inr (a, other)
            \<longrightarrow> p \<in> set a \<and> p \<notin> set other)
       \<and> processModelTurn (Some (JObj [(''parts'', JArr (xs @ p # ys))]))
           = processModelTurn (Some (JObj [(''parts'', JArr (xs @ ys))]))"
proof -
  have skip: "audio_bytes p = None"
    using nodata by (auto simp: audio_bytes_def)
  have ia: "is_audio p" using aud by (simp add: is_audio_def)
  have part1: "separateContentParts (Some (JArr (xs @ p # ys))) = Inr (a, other)
            \<longrightarrow> p \<in> set a \<and> p \<notin> set other"
  proof
    assume "separateContentParts (Some (JArr (xs @ p # ys))) = Inr (a, other)"
    then obtain zs where f: "filterE isAudioPart (xs @ p # ys) = Inr zs"
      and a: "a = zs" and o: "other = difference (xs @ p # ys) zs"
      by (auto simp: separateContentParts_def split: sum.splits)
    from filterE_Inr [OF f] have zs: "zs = filter is_audio (xs @ p # ys)"
      by (simp only: is_audio_fun)
    have "other = filter (\<lambda>q. \<not> is_audio q) (xs @ p # ys)"
      unfolding o zs by (rule difference_filter)
    then show "p \<in> set a \<and> p \<notin> set other"
      using ia by (simp add: a zs)
  qed
  have part2: "processModelTurn (Some (JObj [(''parts'', JArr (xs @ p # ys))]))
           = processModelTurn (Some (JObj [(''parts'', JArr (xs @ ys))]))"
  proof (cases "filterE isAudioPart (xs @ ys)")
    case (Inl e)
    then have "filterE isAudioPart (xs @ p # ys) = Inl e"
      using filterE_skip [of isAudioPart p True xs ys e] aud by simp
    then show ?thesis using Inl
      by (simp add: processModelTurn_def separateContentParts_def)
  next
    case (Inr zs)
    from filterE_Inr [OF Inr] have tot: "\<forall>q \<in> set (xs @ ys). \<exists>b. isAudioPart q = Inr b"
      by blast
    have "\<forall>q \<in> set (xs @ p # ys). \<exists>b. isAudioPart q = Inr b"
      using tot aud by auto
    from filterE_total [OF this]
    have f2: "filterE isAudioPart (xs @ p # ys) = Inr (filter is_audio (xs @ p # ys))"
      by (simp only: is_audio_fun)
    have other2: "filter (\<lambda>q. \<not> is_audio q) (xs @ p # ys) = filter (\<lambda>q. \<not> is_audio q) (xs @ ys)"
      using ia by simp
    have pa: "processAudioParts (filter is_audio xs @ p # filter is_audio ys)
            = processAudioParts (filter is_audio xs @ filter is_audio ys)"
      using skip by (rule processAudioParts_skip)
    have pa': "processAudioParts (filter is_audio (xs @ p # ys))
            = processAudioParts (filter is_audio (xs @ ys))"
      using pa by (simp add: ia)
    show ?thesis
      using f2 Inr pa' other2 by (rule processModelTurn_cong)
  qed
  show ?thesis using part1 part2 by blast
qed

lemma processModelTurn_sample:
  "processModelTurn (Some (JObj [(''parts'', JArr [text_part, audio_part])]))
     = (Inr (),
        [Emit (AudioEv [0, 1, 2]), Emit (LogEv ''server.audio'' (Text ''buffer (3)'')),
         Emit (ContentEv (JObj [(''modelTurn'', JObj [(''parts'', JArr [text_part])])])),
         Emit (LogEv ''server.content''
           (Incoming (JObj [(''serverContent'',
              JObj [(''modelTurn'', JObj [(''parts'', JArr [text_part])])])])))])"
  by (simp add: processModelTurn_def separateContentParts_def isAudioPart_def startsWith_def
      difference_def inlineData_data_def base64ToArrayBuffer_def atob_AAEC show_nat_3
      client_log_def Let_def text_part_def audio_part_def)

theorem audio_part_without_data_dropped_witness:
  "isAudioPart silent_audio_part = Inr True
   \<and> inlineData_data silent_audio_part = Inr None
   \<and> separateContentParts (Some (JArr [text_part, silent_audio_part, audio_part]))
       = Inr ([silent_audio_part, audio_part], [text_part])
   \<and> silent_audio_part \<in> set [silent_audio_part, audio_part]
   \<and> silent_audio_part \<notin> set [text_part]
   \<and> processModelTurn (Some (JObj [(''parts'', JArr [text_part, silent_audio_part, audio_part])]))
       = (Inr (),
          [Emit (AudioEv [0, 1, 2]), Emit (LogEv ''server.audio'' (Text ''buffer (3)'')),
           Emit (ContentEv (JObj [(''modelTurn'', JObj [(''parts'', JArr [text_part])])])),
           Emit (LogEv ''server.content''
             (Incoming (JObj [(''serverContent'',
                JObj [(''modelTurn'', JObj [(''parts'', JArr [text_part])])])])))])"
proof -
  have h1: "isAudioPart silent_audio_part = Inr True"
    by (simp add: isAudioPart_def startsWith_def silent_audio_part_def)
  have h2: "inlineData_data silent_audio_part = Inr None"
    by (simp add: inlineData_data_def silent_audio_part_def)
  have s: "separateContentParts (Some (JArr [text_part, silent_audio_part, audio_part]))
       = Inr ([silent_audio_part, audio_part], [text_part])"
    using separateContentParts_typed [of "[text_part, silent_audio_part, audio_part]"]
    by (simp add: is_Part_samples is_audio_samples)
  from audio_part_without_data_dropped [where p = silent_audio_part and xs = "[text_part]"
      and ys = "[audio_part]" and a = "[silent_audio_part, audio_part]"
      and other = "[text_part]", OF h1]
  show ?thesis
    using h1 h2 s by (simp add: processModelTurn_sample)
qed

lemma processModelTurn_sample_parts:
  "processModelTurn (Some (JObj [(''parts'', JArr sample_parts)]))
     = (Inr (),
        [Emit (AudioEv [0, 1, 2]), Emit (LogEv ''server.audio'' (Text ''buffer (3)'')),
         Emit (ContentEv (JObj [(''modelTurn'', JObj [(''parts'', JArr [text_part, image_part])])])),
         Emit (LogEv ''server.content''
           (Incoming (JObj [(''serverContent'',
              JObj [(''modelTurn'', JObj [(''parts'', JArr [text_part, image_part])])])])))])"
  by (simp add: processModelTurn_def separateContentParts_def isAudioPart_def startsWith_def
      difference_def inlineData_data_def base64ToArrayBuffer_def atob_AAEC show_nat_3
      client_log_def Let_def sample_parts_def text_part_def audio_part_def
      silent_audio_part_def image_part_def)

theorem handleServerContent_order_witness:
  "lookup (JObj [(''serverContent'', interrupted_content)]) ''serverContent''
     = Some interrupted_content
   \<and> isInterrupted interrupted_content
   \<and> handleServerContent (JObj [(''serverContent'', interrupted_content)])
       = (Inr (), [Emit (LogEv ''receive.serverContent'' (Text ''interrupted'')),
                   Emit InterruptedEv])
   \<and> \<not> isInterrupted turn_content \<and> isTurnComplete turn_content \<and> isModelTurn turn_content
   \<and> handleServerContent (JObj [(''serverContent'', turn_content)])
       = (Inr (),
          [Emit (LogEv ''server.send'' (Text ''turnComplete'')), Emit TurnCompleteEv,
           Emit (AudioEv [0, 1, 2]), Emit (LogEv ''server.audio'' (Text ''buffer (3)'')),
           Emit (ContentEv (JObj [(''modelTurn'', JObj [(''parts'', JArr [text_part, image_part])])])),
           Emit (LogEv ''server.content''
             (Incoming (JObj [(''serverContent'',
                JObj [(''modelTurn'', JObj [(''parts'', JArr [text_part, image_part])])])])))])"
proof -
  have i1: "isInterrupted interrupted_content"
    by (simp add: isInterrupted_def interrupted_content_def)
  have t1: "\<not> isInterrupted turn_content" "isTurnComplete turn_content" "isModelTurn turn_content"
    by (simp_all add: isInterrupted_def isTurnComplete_def isModelTurn_def typeof_u_def
        turn_content_def)
  have m: "processModelTurn (lookup turn_content ''modelTurn'')
     = (Inr (),
        [Emit (AudioEv [0, 1, 2]), Emit (LogEv ''server.audio'' (Text ''buffer (3)'')),
         Emit (ContentEv (JObj [(''modelTurn'', JObj [(''parts'', JArr [text_part, image_part])])])),
         Emit (LogEv ''server.content''
           (Incoming (JObj [(''serverContent'',
              JObj [(''modelTurn'', JObj [(''parts'', JArr [text_part, image_part])])])])))])"
    using processModelTurn_sample_parts by (simp add: turn_content_def)
  have l1: "lookup (JObj [(''serverContent'', interrupted_content)]) ''serverContent''
     = Some interrupted_content" by simp
  have l2: "lookup (JObj [(''serverContent'', turn_content)]) ''serverContent''
     = Some turn_content" by simp
  from handleServerContent_order [OF l1] handleServerContent_order [OF l2]
  show ?thesis
    using i1 t1 m l1 by simp
qed

subsection \<open>The setup frame and the setupcomplete event\<close>

lemma frames_on_append: "frames_on w (a @ b) = frames_on w a @ frames_on w b"
  by (induction w a rule: frames_on.induct) auto

lemma frames_on_no_send: "(\<forall>a \<in> set t. \<forall>w' m. a \<noteq> WsSend w' m) \<Longrightarrow> frames_on w t = []"
  by (induction w t rule: frames_on.induct) auto

lemma processAudioParts_from_server:
  "processAudioParts ps = (r, tr) \<Longrightarrow> a \<in> set tr \<Longrightarrow> from_server a"
  by (induction ps arbitrary: a r tr)
     (auto simp: from_server_def client_log_def
       split: sum.splits option.splits if_splits prod.splits)

lemma processAudioParts_all: "\<forall>a \<in> set (snd (processAudioParts ps)). from_server a"
  using processAudioParts_from_server by (metis prod.collapse)

lemma processModelTurn_all: "\<forall>a \<in> set (snd (processModelTurn m)). from_server a"
  by (simp add: processModelTurn_def Let_def case_prod_beta processAudioParts_all ball_Un
        client_log_def
      split: sum.splits option.splits)
     (simp add: from_server_def)

lemma handleServerContent_all: "\<forall>a \<in> set (snd (handleServerContent resp)). from_server a"
  by (simp add: handleServerContent_def Let_def case_prod_beta processModelTurn_all ball_Un
        client_log_def
      split: option.splits)
     (auto simp: from_server_def)

lemma handleServerContent_from_server:
  "handleServerContent resp = (r, tr) \<Longrightarrow> a \<in> set tr \<Longrightarrow> from_server a"
  using handleServerContent_all [of resp] by simp

lemma dispatch_from_server:
  "dispatch resp = (r, tr) \<Longrightarrow> a \<in> set tr
   \<Longrightarrow> from_server a \<or> (a = Emit SetupCompleteEv \<and> isSetupCompleteMessage resp)"
  by (auto simp: dispatch_def handleToolCall_def handleToolCallCancellation_def
      handleSetupComplete_def client_log_def
      intro: handleServerContent_from_server
      split: if_splits)
     (simp_all add: from_server_def)

lemma onMessage_from_server:
  assumes "onMessage parse d = (r, tr)" and "a \<in> set tr"
  shows "from_server a
       \<or> (a = Emit SetupCompleteEv
          \<and> (\<exists>payload j. d = BlobData (Blob payload) \<and> parse payload = Some j
                \<and> isSetupCompleteMessage j))"
proof (cases d)
  case OtherData
  then show ?thesis using assms by (auto simp: onMessage_def from_server_def)
next
  case (BlobData b)
  show ?thesis
  proof (cases "blobToJSON parse b")
    case (Inl e)
    then show ?thesis using assms BlobData by (auto simp: onMessage_def receive_def)
  next
    case (Inr j)
    then have d: "dispatch j = (r, tr)"
      using assms BlobData by (simp add: onMessage_def receive_def)
    from Inr obtain payload where "b = Blob payload" "parse payload = Some j"
      by (auto simp: blobToJSON_def split: blob.splits option.splits)
    then show ?thesis using dispatch_from_server [OF d assms(2)] BlobData by auto
  qed
qed

lemma frames_on_onMessage: "frames_on w (snd (onMessage parse d)) = []"
proof (rule frames_on_no_send, intro ballI allI)
  fix a w' m assume "a \<in> set (snd (onMessage parse d))"
  from onMessage_from_server [OF surjective_pairing this] show "a \<noteq> WsSend w' m"
    by (auto simp: from_server_def)
qed

lemma frames_on_step:
  assumes "step parse c i = (c1, t)"
  shows "(\<forall>w. frames_on w t = [] \<or> (ws c = Some w \<and> ws c1 = Some w)
            \<or> (\<exists>cfg. config c = Some cfg \<and> ws c1 = Some w \<and> frames_on w t = [SetupMessage cfg]))
       \<and> (\<forall>w. ws c1 = Some w \<longrightarrow> ws c = Some w \<or> frames_on w t \<noteq> [])
       \<and> (\<forall>cfg. config c1 = Some cfg \<longrightarrow> config c = Some cfg \<or> i = Connect cfg)"
  using assms
  by (cases i)
     (auto simp: step_def connect_def handleOpenConnection_def onError_def
        handleCloseConnection_def disconnect_def send_def sendRealtimeInput_def
        sendToolResponse_def sendDirect_def client_log_def Let_def frames_on_onMessage
        split: option.splits sum.splits if_splits prod.splits)

lemma step_setupcomplete:
  assumes "step parse c i = (c1, t)" and "Emit SetupCompleteEv \<in> set t"
  shows "\<exists>w payload j. i = SockMessage w (BlobData (Blob payload)) \<and> parse payload = Some j
           \<and> isSetupCompleteMessage j"
proof (cases i)
  case (SockMessage w d)
  then have "onMessage parse d = (fst (onMessage parse d), t)"
    using assms(1) by (simp add: step_def prod_eq_iff)
  from onMessage_from_server [OF this assms(2)] show ?thesis
    using SockMessage by (auto simp: from_server_def)
qed (use assms in \<open>auto simp: step_def connect_def handleOpenConnection_def onError_def
        handleCloseConnection_def disconnect_def send_def sendRealtimeInput_def
        sendToolResponse_def sendDirect_def client_log_def Let_def
        split: option.splits sum.splits if_splits prod.splits\<close>)

lemma setup_first_step:
  assumes "setup_first past c tr" and "step parse c i = (c1, t)"
  shows "setup_first (past @ [i]) c1 (tr @ t)"
proof -
  note st = frames_on_step [OF assms(2)]
  from st have a: "\<And>w. frames_on w t = [] \<or> (ws c = Some w \<and> ws c1 = Some w)
            \<or> (\<exists>cfg. config c = Some cfg \<and> ws c1 = Some w \<and> frames_on w t = [SetupMessage cfg])"
    by blast
  from st have b: "\<And>w. ws c1 = Some w \<Longrightarrow> ws c = Some w \<or> frames_on w t \<noteq> []"
    by blast
  from st have d: "\<And>cfg. config c1 = Some cfg \<Longrightarrow> config c = Some cfg \<or> i = Connect cfg"
    by blast
  from assms(1) have A: "\<And>w. frames_on w tr = []
        \<or> (\<exists>cfg. Connect cfg \<in> set past \<and> hd (frames_on w tr) = SetupMessage cfg)"
    and B: "\<And>w. ws c = Some w \<Longrightarrow> frames_on w tr \<noteq> []"
    and C: "\<And>cfg. config c = Some cfg \<Longrightarrow> Connect cfg \<in> set past"
    unfolding setup_first_def by blast+
  have 1: "frames_on w (tr @ t) = []
        \<or> (\<exists>cfg. Connect cfg \<in> set (past @ [i]) \<and> hd (frames_on w (tr @ t)) = SetupMessage cfg)"
    for w
  proof (cases "frames_on w tr = []")
    case False
    then show ?thesis using A [of w] by (auto simp: frames_on_append)
  next
    case True
    then have nw: "ws c \<noteq> Some w" using B by blast
    show ?thesis using a [of w] nw True C by (auto simp: frames_on_append)
  qed
  have 2: "frames_on w (tr @ t) \<noteq> []" if "ws c1 = Some w" for w
    using b [OF that] B by (auto simp: frames_on_append)
  have 3: "Connect cfg \<in> set (past @ [i])" if "config c1 = Some cfg" for cfg
    using d [OF that] C by auto
  show ?thesis unfolding setup_first_def using 1 2 3 by blast
qed

lemma setup_first_run:
  assumes "setup_first past c tr" and "run parse c ins = (c', tr')"
  shows "setup_first (past @ ins) c' (tr @ tr')"
  using assms
proof (induction ins arbitrary: past c tr c' tr')
  case Nil
  then show ?case by simp
next
  case (Cons i ins)
  obtain c1 t where s: "step parse c i = (c1, t)" by (cases "step parse c i")
  obtain c2 t2 where r: "run parse c1 ins = (c2, t2)" by (cases "run parse c1 ins")
  from Cons.prems(2) s r have e: "c' = c2" "tr' = t @ t2" by simp_all
  from setup_first_step [OF Cons.prems(1) s] have "setup_first (past @ [i]) c1 (tr @ t)" .
  from Cons.IH [OF this r] show ?case by (simp add: e)
qed

lemma run_setupcomplete:
  "Emit SetupCompleteEv \<in> set (snd (run parse c ins))
   \<Longrightarrow> \<exists>w payload j. SockMessage w (BlobData (Blob payload)) \<in> set ins \<and> parse payload = Some j
          \<and> isSetupCompleteMessage j"
proof (induction ins arbitrary: c)
  case Nil
  then show ?case by simp
next
  case (Cons i ins)
  obtain c1 t where s: "step parse c i = (c1, t)" by (cases "step parse c i")
  obtain c2 t2 where r: "run parse c1 ins = (c2, t2)" by (cases "run parse c1 ins")
  from Cons.prems s r have "Emit SetupCompleteEv \<in> set t \<or> Emit SetupCompleteEv \<in> set t2"
    by auto
  then show ?case
  proof
    assume "Emit SetupCompleteEv \<in> set t"
    from step_setupcomplete [OF s this] show ?thesis by auto
  next
    assume "Emit SetupCompleteEv \<in> set t2"
    then have "Emit SetupCompleteEv \<in> set (snd (run parse c1 ins))" using r by simp
    from Cons.IH [OF this] show ?thesis by auto
  qed
qed

text \<open>
  C6. When a socket opens and a config is stored, the open handler emits \<^verbatim>\<open>open\<close>,
  stores the socket and sends the setup message with the stored config on it before
  it returns. In every run of a new client, whatever calls and socket events it is
  made of, the first frame handed to each socket is a setup message that carries a
  config passed to \<^verbatim>\<open>connect\<close>. The \<^verbatim>\<open>setupcomplete\<close> event is emitted only in
  a run in which a socket has delivered a frame that parses to a value with an object
  under \<^verbatim>\<open>setupComplete\<close>; as this holds of every run, it holds of every prefix of
  one, so the event never comes before that frame.
\<close>

theorem setup_first_setupcomplete_after:
  "(config c = Some cfg \<and> truthy cfg \<longrightarrow>
      handleOpenConnection c w \<lparr>ev_type = ''open''\<rparr>
        = (c\<lparr>ws := Some w\<rparr>,
           [Emit (LogEv ''client.open'' (Text ''Connected to socket'')), Emit OpenEv,
            WsSend w (SetupMessage cfg), Emit (LogEv ''client.send'' (Text ''setup'')),
            RemoveErrorListener w, AddCloseListener w, Resolve True]))
   \<and> (\<forall>s. frames_on s (snd (run parse (new_client u) ins)) = []
          \<or> (\<exists>cfg'. Connect cfg' \<in> set ins
                \<and> hd (frames_on s (snd (run parse (new_client u) ins))) = SetupMessage cfg'))
   \<and> (Emit SetupCompleteEv \<in> set (snd (run parse (new_client u) ins)) \<longrightarrow>
        (\<exists>s payload j. SockMessage s (BlobData (Blob payload)) \<in> set ins
           \<and> parse payload = Some j \<and> isSetupCompleteMessage j))"
proof -
  have a: "config c = Some cfg \<and> truthy cfg \<longrightarrow>
      handleOpenConnection c w \<lparr>ev_type = ''open''\<rparr>
        = (c\<lparr>ws := Some w\<rparr>,
           [Emit (LogEv ''client.open'' (Text ''Connected to socket'')), Emit OpenEv,
            WsSend w (SetupMessage cfg), Emit (LogEv ''client.send'' (Text ''setup'')),
            RemoveErrorListener w, AddCloseListener w, Resolve True])"
    by (simp add: handleOpenConnection_def sendDirect_def client_log_def Let_def)
  have i0: "setup_first [] (new_client u) []"
    by (simp add: setup_first_def new_client_def)
  obtain c' tr' where r: "run parse (new_client u) ins = (c', tr')"
    by (cases "run parse (new_client u) ins")
  from setup_first_run [OF i0 r] have "setup_first ins c' tr'" by simp
  then have b: "\<forall>s. frames_on s (snd (run parse (new_client u) ins)) = []
          \<or> (\<exists>cfg'. Connect cfg' \<in> set ins
                \<and> hd (frames_on s (snd (run parse (new_client u) ins))) = SetupMessage cfg')"
    unfolding setup_first_def r by simp
  show ?thesis using a b run_setupcomplete [of parse "new_client u" ins] by blast
qed

lemma run_sample_inputs:
  "run JSON_parse (new_client ''wss://host'') sample_inputs
     = (sample_client,
        [Emit (LogEv ''client.open'' (Text ''Connected to socket'')), Emit OpenEv,
         WsSend 0 (SetupMessage sample_config), Emit (LogEv ''client.send'' (Text ''setup'')),
         RemoveErrorListener 0, AddCloseListener 0, Resolve True,
         WsSend 0 (ClientContentMessage [\<lparr>role = ''user'', parts = [text_part]\<rparr>] True),
         Emit (LogEv ''client.send''
           (Outgoing (ClientContentMessage [\<lparr>role = ''user'', parts = [text_part]\<rparr>] True))),
         Emit (LogEv ''server.send'' (Text ''setupComplete'')), Emit SetupCompleteEv])"
  by code_simp

lemma JSON_parse_setupComplete:
  "JSON_parse ''{\"setupComplete\":{}}'' = Some (JObj [(''setupComplete'', JObj [])])"
  by code_simp

theorem setup_first_setupcomplete_after_witness:
  "config (connect (new_client ''wss://host'') sample_config) = Some sample_config
   \<and> truthy sample_config
   \<and> handleOpenConnection (connect (new_client ''wss://host'') sample_config) 0 \<lparr>ev_type = ''open''\<rparr>
       = (sample_client,
          [Emit (LogEv ''client.open'' (Text ''Connected to socket'')), Emit OpenEv,
           WsSend 0 (SetupMessage sample_config), Emit (LogEv ''client.send'' (Text ''setup'')),
           RemoveErrorListener 0, AddCloseListener 0, Resolve True])
   \<and> frames_on 0 (snd (run JSON_parse (new_client ''wss://host'') sample_inputs))
       = [SetupMessage sample_config,
          ClientContentMessage [\<lparr>role = ''user'', parts = [text_part]\<rparr>] True]
   \<and> hd (frames_on 0 (snd (run JSON_parse (new_client ''wss://host'') sample_inputs)))
       = SetupMessage sample_config
   \<and> Emit SetupCompleteEv \<in> set (snd (run JSON_parse (new_client ''wss://host'') sample_inputs))
   \<and> SockMessage 0 (BlobData (Blob ''{\"setupComplete\":{}}'')) \<in> set sample_inputs
   \<and> JSON_parse ''{\"setupComplete\":{}}'' = Some (JObj [(''setupComplete'', JObj [])])
   \<and> isSetupCompleteMessage (JObj [(''setupComplete'', JObj [])])"
proof -
  have h1: "config (connect (new_client ''wss://host'') sample_config) = Some sample_config"
    by (simp add: connect_def new_client_def)
  have h2: "truthy sample_config"
    by (simp add: sample_config_def)
  have e: "(connect (new_client ''wss://host'') sample_config)\<lparr>ws := Some 0\<rparr> = sample_client"
    by (simp add: connect_def new_client_def sample_client_def)
  have m: "SockMessage 0 (BlobData (Blob ''{\"setupComplete\":{}}'')) \<in> set sample_inputs"
    by (simp add: sample_inputs_def)
  have g: "isSetupCompleteMessage (JObj [(''setupComplete'', JObj [])])"
    by (simp add: isSetupCompleteMessage_def prop'_def typeof_u_def)
  from setup_first_setupcomplete_after [where c = "connect (new_client ''wss://host'') sample_config"
      and cfg = sample_config and w = 0 and parse = JSON_parse and u = "''wss://host''"
      and ins = sample_inputs]
  show ?thesis
    using h1 h2 m g by (simp add: e run_sample_inputs JSON_parse_setupComplete)
qed

end
